theory Spec2Isabelle
  imports Main "HOL-Library.Word" "HOL-Library.Sublist"
begin

section \<open>Strings and paths\<close>

text \<open>
  File names and paths are Python \<open>str\<close> values, modelled as \<open>string\<close>.
  \<open>str.lower\<close> is modelled on the ASCII letters; every other character is left as it is.
\<close>

type_synonym path = string

type_synonym bytes = "8 word list"

definition lower_char :: "char \<Rightarrow> char" where
  "lower_char c =
     (case map_of (zip ''ABCDEFGHIJKLMNOPQRSTUVWXYZ'' ''abcdefghijklmnopqrstuvwxyz'') c of
        Some d \<Rightarrow> d
      | None \<Rightarrow> c)"

definition lower :: "string \<Rightarrow> string" where
  "lower s = map lower_char s"

text \<open>Python's \<open>sub in s\<close> on strings: \<open>sub\<close> occurs in \<open>s\<close> as a contiguous run.\<close>

fun str_contains :: "string \<Rightarrow> string \<Rightarrow> bool" where
  "str_contains sub [] = (sub = [])"
| "str_contains sub (c # cs) = (take (length sub) (c # cs) = sub \<or> str_contains sub cs)"

text \<open>\<open>os.path.join(a, b)\<close> of posixpath, for two components.\<close>

definition os_path_join :: "path \<Rightarrow> path \<Rightarrow> path" where
  "os_path_join a b =
     (if take 1 b = ''/'' then b
      else if a = [] \<or> last a = CHR ''/'' then a @ b
      else a @ ''/'' @ b)"

section \<open>The environment: filesystem, imaging library, subprocesses\<close>

text \<open>
  Exceptions are values. The classes kept apart are the ones an \<open>except\<close> clause of the
  script names; \<open>OtherException\<close> stands for every other subclass of \<open>Exception\<close>.
  Asynchronous interrupts are not part of the model.
\<close>

datatype exn = CalledProcessError string | FileNotFoundError | OtherException string

datatype resampling = LANCZOS

text \<open>
  What \<open>print\<close> is called with. A \<open>print\<close> statement is named by its line in the
  source: its text is the literal of that line, with the values that the line's f-string
  interpolates, in order. Whether the console accepts a text (its encoding may lack a
  character of the literal or of a value, the stream may be closed) is the environment's.
\<close>

datatype printed = PStr string | PNat nat | PExn exn

datatype message = Line nat "printed list"

text \<open>
  Every call that leaves the script is a field of the environment. A call that reads takes
  the state of the world \<open>'w\<close>; a call that writes also returns the new one. Images in
  memory are values of \<open>'img\<close>; \<open>paste\<close>, which mutates its receiver in Python, returns
  the receiver's new value.
\<close>

record ('w, 'img) env =
  os_path_exists :: "'w \<Rightarrow> path \<Rightarrow> bool"
  os_path_isdir :: "'w \<Rightarrow> path \<Rightarrow> bool"
  os_listdir :: "'w \<Rightarrow> path \<Rightarrow> exn + string list"
  os_makedirs :: "'w \<Rightarrow> path \<Rightarrow> (exn + unit) \<times> 'w"
  Image_open :: "'w \<Rightarrow> path \<Rightarrow> exn + 'img"
  img_convert :: "'img \<Rightarrow> string \<Rightarrow> exn + 'img"
  img_size :: "'img \<Rightarrow> nat \<times> nat"
  img_mode :: "'img \<Rightarrow> string"
  img_resize :: "'img \<Rightarrow> nat \<times> nat \<Rightarrow> resampling \<Rightarrow> exn + 'img"
  img_paste :: "'img \<Rightarrow> 'img \<Rightarrow> nat \<times> nat \<Rightarrow> 'img \<Rightarrow> exn + 'img"
  img_info_get_exif :: "'img \<Rightarrow> exn + bytes option"
  img_save_jpeg :: "'w \<Rightarrow> 'img \<Rightarrow> path \<Rightarrow> int \<Rightarrow> bytes option \<Rightarrow> (exn + unit) \<times> 'w"
  subprocess_run :: "'w \<Rightarrow> string list \<Rightarrow> (exn + unit) \<times> 'w"
  py_input :: "'w \<Rightarrow> (exn + string) \<times> 'w"
  py_print :: "'w \<Rightarrow> message \<Rightarrow> exn + unit"

text \<open>The calls made, in order.\<close>

datatype 'img event =
    EExists path
  | EIsdir path
  | EListdir path
  | EMakedirs path
  | EOpen path
  | ESave 'img path int "bytes option"
  | ERun "string list"
  | EInput
  | EPrint message

text \<open>
  A computation takes the world and the log of calls so far, and returns a value or a
  raised exception together with the new world and log.
\<close>

type_synonym ('w, 'img, 'a) io = "'w \<times> 'img event list \<Rightarrow> (exn + 'a) \<times> ('w \<times> 'img event list)"

definition io_return :: "'a \<Rightarrow> ('w, 'img, 'a) io" where
  "io_return x = (\<lambda>s. (Inr x, s))"

definition io_raise :: "exn \<Rightarrow> ('w, 'img, 'a) io" where
  "io_raise e = (\<lambda>s. (Inl e, s))"

definition io_lift :: "exn + 'a \<Rightarrow> ('w, 'img, 'a) io" where
  "io_lift r = (\<lambda>s. (r, s))"

definition io_bind :: "('w, 'img, 'a) io \<Rightarrow> ('a \<Rightarrow> ('w, 'img, 'b) io) \<Rightarrow> ('w, 'img, 'b) io" where
  "io_bind m f = (\<lambda>s. case m s of (Inl e, s') \<Rightarrow> (Inl e, s') | (Inr x, s') \<Rightarrow> f x s')"

text \<open>
  \<open>try: m except ...\<close>. The handler maps an exception to the code of the first
  \<open>except\<close> clause that matches it, or to \<open>None\<close> when no clause does and the
  exception goes on to the caller.
\<close>

definition io_try ::
  "('w, 'img, 'a) io \<Rightarrow> (exn \<Rightarrow> ('w, 'img, 'a) io option) \<Rightarrow> ('w, 'img, 'a) io" where
  "io_try m h =
     (\<lambda>s. case m s of
            (Inl e, s') \<Rightarrow> (case h e of None \<Rightarrow> (Inl e, s') | Some k \<Rightarrow> k s')
          | (Inr x, s') \<Rightarrow> (Inr x, s'))"

definition do_exists :: "('w, 'img) env \<Rightarrow> path \<Rightarrow> ('w, 'img, bool) io" where
  "do_exists env p = (\<lambda>(w, log). (Inr (os_path_exists env w p), (w, log @ [EExists p])))"

definition do_isdir :: "('w, 'img) env \<Rightarrow> path \<Rightarrow> ('w, 'img, bool) io" where
  "do_isdir env p = (\<lambda>(w, log). (Inr (os_path_isdir env w p), (w, log @ [EIsdir p])))"

definition do_listdir :: "('w, 'img) env \<Rightarrow> path \<Rightarrow> ('w, 'img, string list) io" where
  "do_listdir env p = (\<lambda>(w, log). (os_listdir env w p, (w, log @ [EListdir p])))"

definition do_makedirs :: "('w, 'img) env \<Rightarrow> path \<Rightarrow> ('w, 'img, unit) io" where
  "do_makedirs env p =
     (\<lambda>(w, log). case os_makedirs env w p of (r, w') \<Rightarrow> (r, (w', log @ [EMakedirs p])))"

definition do_open :: "('w, 'img) env \<Rightarrow> path \<Rightarrow> ('w, 'img, 'img) io" where
  "do_open env p = (\<lambda>(w, log). (Image_open env w p, (w, log @ [EOpen p])))"

definition do_save ::
  "('w, 'img) env \<Rightarrow> 'img \<Rightarrow> path \<Rightarrow> int \<Rightarrow> bytes option \<Rightarrow> ('w, 'img, unit) io" where
  "do_save env im p q ex =
     (\<lambda>(w, log). case img_save_jpeg env w im p q ex of
                   (r, w') \<Rightarrow> (r, (w', log @ [ESave im p q ex])))"

definition do_run :: "('w, 'img) env \<Rightarrow> string list \<Rightarrow> ('w, 'img, unit) io" where
  "do_run env cmd =
     (\<lambda>(w, log). case subprocess_run env w cmd of (r, w') \<Rightarrow> (r, (w', log @ [ERun cmd])))"

definition do_input :: "('w, 'img) env \<Rightarrow> ('w, 'img, string) io" where
  "do_input env = (\<lambda>(w, log). case py_input env w of (r, w') \<Rightarrow> (r, (w', log @ [EInput])))"

definition do_print :: "('w, 'img) env \<Rightarrow> message \<Rightarrow> ('w, 'img, unit) io" where
  "do_print env m = (\<lambda>(w, log). (py_print env w m, (w, log @ [EPrint m])))"

text \<open>Consecutive \<open>print\<close> statements: the first that raises ends the sequence.\<close>

fun do_prints :: "('w, 'img) env \<Rightarrow> message list \<Rightarrow> ('w, 'img, unit) io" where
  "do_prints env [] = io_return ()"
| "do_prints env (m # ms) = io_bind (do_print env m) (\<lambda>_. do_prints env ms)"

section \<open>Discovery: \<open>find_overlay_folders\<close>\<close>

record folder_info =
  folder_name :: string
  folder_path :: path
  overlays :: "path list"
  base_image :: "path option"
  base_video :: "path option"
  is_image :: bool
  is_video :: bool

definition overlay_files_of :: "string list \<Rightarrow> string list" where
  "overlay_files_of files = filter (\<lambda>f. str_contains ''-overlay.png'' (lower f)) files"

definition main_images_of :: "string list \<Rightarrow> string list" where
  "main_images_of files = filter (\<lambda>f. str_contains ''-main.jpg'' (lower f)) files"

definition main_videos_of :: "string list \<Rightarrow> string list" where
  "main_videos_of files = filter (\<lambda>f. str_contains ''-main.mp4'' (lower f)) files"

text \<open>The dictionary built at lines 57 to 65, for a folder whose overlay list is not empty.\<close>

definition make_folder_info :: "string \<Rightarrow> path \<Rightarrow> string list \<Rightarrow> folder_info" where
  "make_folder_info item item_path files =
     (let overlay_files = overlay_files_of files;
          main_images = main_images_of files;
          main_videos = main_videos_of files
      in \<lparr> folder_name = item,
           folder_path = item_path,
           overlays = map (os_path_join item_path) overlay_files,
           base_image = (case main_images of [] \<Rightarrow> None | f # _ \<Rightarrow> Some (os_path_join item_path f)),
           base_video = (case main_videos of [] \<Rightarrow> None | f # _ \<Rightarrow> Some (os_path_join item_path f)),
           is_image = (main_images \<noteq> []),
           is_video = (main_videos \<noteq> []) \<rparr>)"

text \<open>The \<open>for item in os.listdir(directory)\<close> loop, with \<open>overlay_folders\<close> as accumulator.\<close>

fun scan_entries ::
  "('w, 'img) env \<Rightarrow> path \<Rightarrow> string list \<Rightarrow> folder_info list \<Rightarrow> ('w, 'img, folder_info list) io" where
  "scan_entries env directory [] overlay_folders = io_return overlay_folders"
| "scan_entries env directory (item # rest) overlay_folders =
     (let item_path = os_path_join directory item in
      io_bind (do_isdir env item_path) (\<lambda>d.
        if \<not> d then scan_entries env directory rest overlay_folders
        else io_bind (do_listdir env item_path) (\<lambda>files.
          if overlay_files_of files \<noteq> []
          then scan_entries env directory rest
                 (overlay_folders @ [make_folder_info item item_path files])
          else scan_entries env directory rest overlay_folders)))"

definition find_overlay_folders :: "('w, 'img) env \<Rightarrow> path \<Rightarrow> ('w, 'img, folder_info list) io" where
  "find_overlay_folders env directory =
     io_bind (do_exists env directory) (\<lambda>ex.
       if \<not> ex then
         io_bind (do_print env (Line 36 [PStr directory])) (\<lambda>_.
         io_return [])
       else
         io_bind (do_print env (Line 39 [])) (\<lambda>_.
         io_bind (do_listdir env directory) (\<lambda>names.
         scan_entries env directory names [])))"

section \<open>The compositors\<close>

text \<open>
  A path argument is \<open>None\<close> when the caller passes Python's \<open>None\<close>; the library
  call that receives it raises.
\<close>

definition do_open_arg :: "('w, 'img) env \<Rightarrow> path option \<Rightarrow> ('w, 'img, 'img) io" where
  "do_open_arg env p =
     (case p of None \<Rightarrow> io_raise (OtherException ''AttributeError'') | Some q \<Rightarrow> do_open env q)"

text \<open>Python's truth value of \<open>exif_data\<close>: \<open>None\<close> and the empty byte string are false.\<close>

definition truthy_bytes :: "bytes option \<Rightarrow> bool" where
  "truthy_bytes v = (case v of None \<Rightarrow> False | Some b \<Rightarrow> b \<noteq> [])"

text \<open>
  The body of the \<open>try\<close> of \<open>combine_image\<close>, lines 76 to 101. The handler of
  \<open>except Exception\<close> prints the exception (line 103) and then returns \<open>False\<close>; what the
  \<open>print\<close> raises is raised outside the \<open>try\<close>.
\<close>

definition combine_image_body ::
  "('w, 'img) env \<Rightarrow> path option \<Rightarrow> path \<Rightarrow> path \<Rightarrow> int \<Rightarrow> ('w, 'img, bool) io" where
  "combine_image_body env base_path overlay_path output_path quality =
     io_bind (do_open_arg env base_path) (\<lambda>base_img.
     io_bind (io_lift (img_convert env base_img ''RGB'')) (\<lambda>base.
     io_bind (do_open env overlay_path) (\<lambda>overlay_img.
     io_bind (io_lift (img_convert env overlay_img ''RGBA'')) (\<lambda>overlay.
     io_bind (if img_size env overlay \<noteq> img_size env base
              then io_lift (img_resize env overlay (img_size env base) LANCZOS)
              else io_return overlay) (\<lambda>overlay.
     io_bind (io_lift (img_paste env base overlay (0, 0) overlay)) (\<lambda>base.
     io_bind (io_try (io_lift (img_info_get_exif env base_img)) (\<lambda>e. Some (io_return None)))
       (\<lambda>exif_data.
     io_bind (if truthy_bytes exif_data
              then do_save env base output_path quality exif_data
              else do_save env base output_path quality None) (\<lambda>_.
     io_return True))))))))"

definition combine_image ::
  "('w, 'img) env \<Rightarrow> path option \<Rightarrow> path \<Rightarrow> path \<Rightarrow> int \<Rightarrow> ('w, 'img, bool) io" where
  "combine_image env base_path overlay_path output_path quality =
     io_try (combine_image_body env base_path overlay_path output_path quality)
       (\<lambda>e. Some (io_bind (do_print env (Line 103 [PExn e])) (\<lambda>_. io_return False)))"

definition ffmpeg_cmd :: "path \<Rightarrow> path \<Rightarrow> path \<Rightarrow> string list" where
  "ffmpeg_cmd base_path overlay_path output_path =
     [''ffmpeg'', ''-i'', base_path, ''-i'', overlay_path,
      ''-filter_complex'', ''[0:v][1:v]overlay=0:0'', ''-c:a'', ''copy'', ''-y'', output_path]"

definition combine_video ::
  "('w, 'img) env \<Rightarrow> path option \<Rightarrow> path \<Rightarrow> path \<Rightarrow> ('w, 'img, bool) io" where
  "combine_video env base_path overlay_path output_path =
     io_try
       (io_bind (case base_path of
                   None \<Rightarrow> io_raise (OtherException ''TypeError'')
                 | Some b \<Rightarrow> do_run env (ffmpeg_cmd b overlay_path output_path)) (\<lambda>_.
        io_return True))
       (\<lambda>e. case e of
              CalledProcessError err \<Rightarrow>
                Some (io_bind (do_print env (Line 132 [PStr err])) (\<lambda>_. io_return False))
            | _ \<Rightarrow>
                Some (io_bind (do_print env (Line 135 [PExn e])) (\<lambda>_. io_return False)))"

definition check_ffmpeg_available :: "('w, 'img) env \<Rightarrow> ('w, 'img, bool) io" where
  "check_ffmpeg_available env =
     io_try (io_bind (do_run env [''ffmpeg'', ''-version'']) (\<lambda>_. io_return True))
       (\<lambda>e. case e of
              CalledProcessError err \<Rightarrow> Some (io_return False)
            | FileNotFoundError \<Rightarrow> Some (io_return False)
            | OtherException msg \<Rightarrow> None)"

section \<open>The orchestrator: \<open>process_all_memories\<close>\<close>

record counters =
  processed_images :: nat
  processed_videos :: nat
  skipped_videos :: nat
  errors :: nat

definition zero_counters :: counters where
  "zero_counters = \<lparr> processed_images = 0, processed_videos = 0, skipped_videos = 0, errors = 0 \<rparr>"

text \<open>\<open>folder_info['overlays'][0]\<close>: an empty list raises \<open>IndexError\<close>.\<close>

definition first_overlay :: "folder_info \<Rightarrow> ('w, 'img, path) io" where
  "first_overlay fi =
     (case overlays fi of [] \<Rightarrow> io_raise (OtherException ''IndexError'') | ov # _ \<Rightarrow> io_return ov)"

text \<open>
  The body of the loop over the folders, lines 177 to 227: the two branches of the dispatch
  first, then the body, which prints the folder's position and name before the dispatch and
  an empty line after it. \<open>n\<close> is \<open>len(overlay_folders)\<close> and \<open>idx\<close> the position, from 1.
\<close>

definition image_branch ::
  "('w, 'img) env \<Rightarrow> path \<Rightarrow> bool \<Rightarrow> int \<Rightarrow> counters \<Rightarrow> folder_info \<Rightarrow> string
     \<Rightarrow> ('w, 'img, counters) io" where
  "image_branch env output_dir dry_run quality c fi output_filename =
     (let output_filename = output_filename @ ''.jpg'';
          output_path = os_path_join output_dir output_filename
      in if dry_run then
           io_bind (do_print env (Line 189 [PStr output_filename])) (\<lambda>_.
           io_return c)
         else
           io_bind (do_print env (Line 191 [PStr output_filename])) (\<lambda>_.
           io_bind (first_overlay fi) (\<lambda>ov.
           io_bind (combine_image env (base_image fi) ov output_path quality) (\<lambda>success.
           if success then
             io_bind (do_print env (Line 200 [])) (\<lambda>_.
             io_return (c\<lparr>processed_images := processed_images c + 1\<rparr>))
           else io_return (c\<lparr>errors := errors c + 1\<rparr>)))))"

definition video_branch ::
  "('w, 'img) env \<Rightarrow> path \<Rightarrow> bool \<Rightarrow> bool \<Rightarrow> counters \<Rightarrow> folder_info \<Rightarrow> string
     \<Rightarrow> ('w, 'img, counters) io" where
  "video_branch env output_dir dry_run has_ffmpeg c fi output_filename =
     (if \<not> has_ffmpeg then
        io_bind (do_print env (Line 206 [])) (\<lambda>_.
        io_return (c\<lparr>skipped_videos := skipped_videos c + 1\<rparr>))
      else
        (let output_filename = output_filename @ ''.mp4'';
             output_path = os_path_join output_dir output_filename
         in if dry_run then
              io_bind (do_print env (Line 213 [PStr output_filename])) (\<lambda>_.
              io_return c)
            else
              io_bind (do_print env (Line 215 [PStr output_filename])) (\<lambda>_.
              io_bind (first_overlay fi) (\<lambda>ov.
              io_bind (combine_video env (base_video fi) ov output_path) (\<lambda>success.
              if success then
                io_bind (do_print env (Line 223 [])) (\<lambda>_.
                io_return (c\<lparr>processed_videos := processed_videos c + 1\<rparr>))
              else io_return (c\<lparr>errors := errors c + 1\<rparr>))))))"

definition process_folder ::
  "('w, 'img) env \<Rightarrow> path \<Rightarrow> bool \<Rightarrow> int \<Rightarrow> bool \<Rightarrow> nat \<Rightarrow> nat \<Rightarrow> counters \<Rightarrow> folder_info
     \<Rightarrow> ('w, 'img, counters) io" where
  "process_folder env output_dir dry_run quality has_ffmpeg n idx c fi =
     io_bind (do_print env (Line 178 [PNat idx, PNat n, PStr (folder_name fi)])) (\<lambda>_.
     (let output_filename = folder_name fi @ ''_combined'' in
      io_bind
        (if is_image fi then image_branch env output_dir dry_run quality c fi output_filename
         else if is_video fi then
           video_branch env output_dir dry_run has_ffmpeg c fi output_filename
         else io_return c) (\<lambda>c'.
      io_bind (do_print env (Line 227 [])) (\<lambda>_.
      io_return c'))))"

fun process_folders ::
  "('w, 'img) env \<Rightarrow> path \<Rightarrow> bool \<Rightarrow> int \<Rightarrow> bool \<Rightarrow> nat \<Rightarrow> nat \<Rightarrow> counters
     \<Rightarrow> folder_info list \<Rightarrow> ('w, 'img, counters) io" where
  "process_folders env output_dir dry_run quality has_ffmpeg n idx c [] = io_return c"
| "process_folders env output_dir dry_run quality has_ffmpeg n idx c (fi # rest) =
     io_bind (process_folder env output_dir dry_run quality has_ffmpeg n idx c fi) (\<lambda>c'.
       process_folders env output_dir dry_run quality has_ffmpeg n (Suc idx) c' rest)"

text \<open>
  \<open>process_all_memories\<close> returns nothing; its local variables show only in what it
  prints. The model returns them as well: the counts of the "Found" block (lines 151 to
  156), the counters at the end of the loop, and the numbers of the summary (lines 234 to
  252), each with its label. A line that is printed only when its counter is positive is
  absent otherwise.
\<close>

record run_report =
  found_images :: nat
  found_videos :: nat
  final :: counters
  summary :: "(string \<times> nat) list"

definition summary_lines :: "bool \<Rightarrow> bool \<Rightarrow> nat \<Rightarrow> nat \<Rightarrow> counters \<Rightarrow> (string \<times> nat) list" where
  "summary_lines dry_run has_ffmpeg image_count video_count c =
     (if dry_run then
        [(''Images'', image_count), (''Videos'', if has_ffmpeg then video_count else 0)]
        @ (if skipped_videos c > 0 then [(''Skipped videos'', skipped_videos c)] else [])
      else
        [(''Images'', processed_images c), (''Videos'', processed_videos c)]
        @ (if skipped_videos c > 0 then [(''Skipped videos'', skipped_videos c)] else [])
        @ (if errors c > 0 then [(''Errors'', errors c)] else []))"

text \<open>The \<open>print\<close> statements of the summary, lines 230 to 254.\<close>

definition summary_messages ::
  "bool \<Rightarrow> bool \<Rightarrow> nat \<Rightarrow> nat \<Rightarrow> counters \<Rightarrow> path \<Rightarrow> message list" where
  "summary_messages dry_run has_ffmpeg image_count video_count c output_dir =
     [Line 230 [], Line 231 [], Line 232 []] @
     (if dry_run then
        [Line 235 [], Line 236 [], Line 237 [], Line 238 [PNat image_count],
         Line 239 [PNat (if has_ffmpeg then video_count else 0)]]
        @ (if skipped_videos c > 0 then [Line 241 [PNat (skipped_videos c)]] else [])
        @ [Line 242 [], Line 243 [], Line 244 []]
      else
        [Line 246 [], Line 247 [PNat (processed_images c)], Line 248 [PNat (processed_videos c)]]
        @ (if skipped_videos c > 0 then [Line 250 [PNat (skipped_videos c)]] else [])
        @ (if errors c > 0 then [Line 252 [PNat (errors c)]] else [])
        @ [Line 253 [], Line 254 [PStr output_dir]])"

definition process_all_memories ::
  "('w, 'img) env \<Rightarrow> path \<Rightarrow> path \<Rightarrow> bool \<Rightarrow> int \<Rightarrow> bool \<Rightarrow> ('w, 'img, run_report option) io" where
  "process_all_memories env source_dir output_dir dry_run quality has_ffmpeg =
     io_bind (find_overlay_folders env source_dir) (\<lambda>overlay_folders.
       if overlay_folders = [] then
         io_bind (do_print env (Line 147 [])) (\<lambda>_.
         io_return None)
       else
         (let image_count = length (filter is_image overlay_folders);
              video_count = length (filter is_video overlay_folders)
          in io_bind (do_prints env
                        ([Line 154 [PNat (length overlay_folders)],
                          Line 155 [PNat image_count],
                          Line 156 [PNat video_count]]
                         @ (if video_count > 0 \<and> \<not> has_ffmpeg
                            then [Line 159 [], Line 160 [], Line 161 []] else [])
                         @ [Line 163 [], Line 164 []])) (\<lambda>_.
             io_bind (if \<not> dry_run then do_makedirs env output_dir else io_return ()) (\<lambda>_.
             io_bind (process_folders env output_dir dry_run quality has_ffmpeg
                        (length overlay_folders) 1 zero_counters overlay_folders) (\<lambda>c.
             io_bind (do_prints env
                        (summary_messages dry_run has_ffmpeg image_count video_count c
                           output_dir)) (\<lambda>_.
             io_return (Some \<lparr> found_images = image_count,
                                found_videos = video_count,
                                final = c,
                                summary = summary_lines dry_run has_ffmpeg
                                            image_count video_count c \<rparr>)))))))"

section \<open>The entry point: \<open>main\<close>\<close>

definition SOURCE_FOLDER :: path where
  "SOURCE_FOLDER = ''snapchat_memories''"

definition OUTPUT_FOLDER :: path where
  "OUTPUT_FOLDER = ''snapchat_memories_combined''"

definition DEFAULT_JPEG_QUALITY :: int where
  "DEFAULT_JPEG_QUALITY = 95"

text \<open>The parsed command line: \<open>--quality\<close> has \<open>type=int\<close>, an unbounded integer.\<close>

record args =
  arg_execute :: bool
  arg_quality :: int
  arg_skip_prompt :: bool

datatype main_result = SysExit int | Cancelled | Finished "run_report option"

definition main :: "('w, 'img) env \<Rightarrow> args \<Rightarrow> ('w, 'img, main_result) io" where
  "main env a =
     (let dry_run = \<not> arg_execute a in
      if \<not> (1 \<le> arg_quality a \<and> arg_quality a \<le> 100) then
        io_bind (do_print env (Line 290 [])) (\<lambda>_.
        io_return (SysExit 1))
      else
        io_bind (do_prints env [Line 293 [], Line 294 [], Line 295 [], Line 296 []]) (\<lambda>_.
        io_bind (if \<not> arg_skip_prompt a then
                   io_bind (do_prints env
                              [Line 300 [], Line 301 [], Line 302 [], Line 303 [],
                               Line 304 [PStr OUTPUT_FOLDER], Line 305 [], Line 306 [],
                               Line 307 []]) (\<lambda>_.
                   io_bind (do_input env) (\<lambda>response.
                   if lower response \<notin> set [''y'', ''yes''] then
                     io_bind (do_print env (Line 310 [])) (\<lambda>_.
                     io_return True)
                   else
                     io_bind (do_print env (Line 312 [])) (\<lambda>_.
                     io_return False)))
                 else io_return False) (\<lambda>cancelled.
        if cancelled then io_return Cancelled
        else
          io_bind (check_ffmpeg_available env) (\<lambda>has_ffmpeg.
          io_bind (if \<not> has_ffmpeg
                   then do_prints env [Line 317 [], Line 318 [], Line 319 [], Line 320 [],
                                       Line 321 []]
                   else io_return ()) (\<lambda>_.
          io_bind (if dry_run then do_prints env [Line 324 [], Line 325 []]
                   else do_prints env [Line 327 [PStr OUTPUT_FOLDER], Line 328 []]) (\<lambda>_.
          io_bind (process_all_memories env SOURCE_FOLDER OUTPUT_FOLDER dry_run
                     (arg_quality a) has_ffmpeg) (\<lambda>r.
          io_return (Finished r))))))))"

section \<open>Vocabulary for the properties\<close>

text \<open>
  What discovery establishes for a dictionary of its result, in the world \<open>w\<close> it scanned:
  the folder is a directory below the root whose listing has an overlay file, and the
  dictionary is the one built from that listing.
\<close>

definition discovered :: "('w, 'img) env \<Rightarrow> 'w \<Rightarrow> path \<Rightarrow> folder_info \<Rightarrow> bool" where
  "discovered env w directory fi =
     (\<exists>files. folder_path fi = os_path_join directory (folder_name fi) \<and>
        os_path_isdir env w (folder_path fi) \<and>
        os_listdir env w (folder_path fi) = Inr files \<and>
        overlay_files_of files \<noteq> [] \<and>
        fi = make_folder_info (folder_name fi) (folder_path fi) files)"

text \<open>The entries of the root that discovery keeps.\<close>

definition keeps :: "('w, 'img) env \<Rightarrow> 'w \<Rightarrow> path \<Rightarrow> string \<Rightarrow> bool" where
  "keeps env w directory item =
     (os_path_isdir env w (os_path_join directory item) \<and>
      (case os_listdir env w (os_path_join directory item) of
         Inl e \<Rightarrow> False | Inr files \<Rightarrow> overlay_files_of files \<noteq> []))"

text \<open>A computation appends to the log only events that satisfy \<open>P\<close>.\<close>

definition logs_only :: "('img event \<Rightarrow> bool) \<Rightarrow> ('w, 'img, 'a) io \<Rightarrow> bool" where
  "logs_only P m =
     (\<forall>w log r w' log'. m (w, log) = (r, (w', log')) \<longrightarrow>
        (\<exists>evs. log' = log @ evs \<and> (\<forall>e\<in>set evs. P e)))"

text \<open>A computation leaves the world as it found it.\<close>

definition world_const :: "('w, 'img, 'a) io \<Rightarrow> bool" where
  "world_const m = (\<forall>w log r w' log'. m (w, log) = (r, (w', log')) \<longrightarrow> w' = w)"

fun is_read :: "'img event \<Rightarrow> bool" where
  "is_read (EExists p) = True"
| "is_read (EIsdir p) = True"
| "is_read (EListdir p) = True"
| "is_read (EOpen p) = True"
| "is_read e = False"

fun is_run :: "'img event \<Rightarrow> bool" where
  "is_run (ERun cmd) = True"
| "is_run e = False"

fun is_print :: "'img event \<Rightarrow> bool" where
  "is_print (EPrint m) = True"
| "is_print e = False"

text \<open>The events of one call of \<open>combine_image\<close> with output path \<open>out\<close> and quality \<open>q\<close>.\<close>

fun saves_to :: "path \<Rightarrow> int \<Rightarrow> 'img event \<Rightarrow> bool" where
  "saves_to out q (EOpen p) = True"
| "saves_to out q (ESave im p q' ex) = (p = out \<and> q' = q)"
| "saves_to out q (EPrint m) = True"
| "saves_to out q e = False"

text \<open>The value of \<open>exif_data\<close> that reaches \<open>save\<close> (lines 89 to 99).\<close>

definition exif_argument :: "('w, 'img) env \<Rightarrow> 'img \<Rightarrow> bytes option" where
  "exif_argument env base_img =
     (case img_info_get_exif env base_img of
        Inl e \<Rightarrow> None
      | Inr v \<Rightarrow> if truthy_bytes v then v else None)"

text \<open>The sum of the four counters of a pass.\<close>

definition total :: "counters \<Rightarrow> nat" where
  "total c = processed_images c + processed_videos c + skipped_videos c + errors c"

text \<open>
  The events one folder may cause in the loop: prints, reads of images, a save to the
  folder's own \<open>.jpg\<close> output when the folder is dispatched as an image, and a run of
  the video tool when the run is not a preview, the tool is available and the folder is
  dispatched as a video.
\<close>

fun folder_event :: "path \<Rightarrow> bool \<Rightarrow> bool \<Rightarrow> folder_info \<Rightarrow> 'img event \<Rightarrow> bool" where
  "folder_event out ff dry fi (EOpen p) = True"
| "folder_event out ff dry fi (EPrint m) = True"
| "folder_event out ff dry fi (ESave im p q ex) =
     (is_image fi \<and> p = os_path_join out (folder_name fi @ ''_combined.jpg''))"
| "folder_event out ff dry fi (ERun cmd) = (ff \<and> \<not> dry \<and> \<not> is_image fi \<and> is_video fi)"
| "folder_event out ff dry fi e = False"

text \<open>
  The command lines of the video tool that a folder causes when the loop body runs to its
  end: one, for a folder dispatched as a video in an execute run with the tool available,
  and none otherwise. The quality is not among the arguments.
\<close>

definition expected_runs :: "path \<Rightarrow> bool \<Rightarrow> bool \<Rightarrow> folder_info \<Rightarrow> string list list" where
  "expected_runs output_dir dry_run has_ffmpeg fi =
     (if \<not> is_image fi \<and> is_video fi \<and> has_ffmpeg \<and> \<not> dry_run then
        (case (overlays fi, base_video fi) of
           (ov # _, Some b) \<Rightarrow>
             [ffmpeg_cmd b ov (os_path_join output_dir (folder_name fi @ ''_combined.mp4''))]
         | _ \<Rightarrow> [])
      else [])"


text \<open>
  The steps of \<open>process_all_memories\<close> between discovery and the loop (lines 154 to 168),
  for a non-empty list of folders.
\<close>

definition before_loop ::
  "('w, 'img) env \<Rightarrow> path \<Rightarrow> bool \<Rightarrow> bool \<Rightarrow> folder_info list \<Rightarrow> ('w, 'img, unit) io" where
  "before_loop env output_dir dry_run has_ffmpeg items =
     io_bind (do_prints env
                ([Line 154 [PNat (length items)],
                  Line 155 [PNat (length (filter is_image items))],
                  Line 156 [PNat (length (filter is_video items))]]
                 @ (if length (filter is_video items) > 0 \<and> \<not> has_ffmpeg
                    then [Line 159 [], Line 160 [], Line 161 []] else [])
                 @ [Line 163 [], Line 164 []])) (\<lambda>_.
     if \<not> dry_run then do_makedirs env output_dir else io_return ())"

text \<open>What a run returns when the loop ends with the counters \<open>c\<close>.\<close>

definition report_of :: "bool \<Rightarrow> bool \<Rightarrow> folder_info list \<Rightarrow> counters \<Rightarrow> run_report" where
  "report_of dry_run has_ffmpeg items c =
     \<lparr> found_images = length (filter is_image items),
       found_videos = length (filter is_video items),
       final = c,
       summary = summary_lines dry_run has_ffmpeg (length (filter is_image items))
                   (length (filter is_video items)) c \<rparr>"



text \<open>
  The \<open>kind\<close> tag of the specification's data model, in the specification's words: Image
  if a base image is present, Video if a base video is present and no base image is,
  Unclassified if neither is. The script has no such field; it is compared below with
  the \<open>if\<close>/\<open>elif\<close> dispatch of the loop.
\<close>

datatype kind = Image | Video | Unclassified

definition spec_kind :: "folder_info \<Rightarrow> kind" where
  "spec_kind fi =
     (if base_image fi \<noteq> None then Image
      else if base_video fi \<noteq> None then Video
      else Unclassified)"

section \<open>A small concrete environment\<close>

text \<open>
  A world for running the script on concrete inputs. The source root holds the entries of
  \<open>tree\<close>: a name with \<open>Some files\<close> is a folder with those files, a name with \<open>None\<close> is
  a plain file. An image is its size, its mode and its EXIF block; a path that contains
  \<open>broken\<close> cannot be decoded, and a command that mentions one fails. The world records the
  paths written. The console accepts every text.
\<close>

type_synonym demo_img = "(nat \<times> nat) \<times> string \<times> bytes option"

definition demo_lookup :: "(string \<times> string list option) list \<Rightarrow> path \<Rightarrow> string list option option" where
  "demo_lookup tree p = map_of (map (\<lambda>(n, v). (os_path_join SOURCE_FOLDER n, v)) tree) p"

definition demo_open :: "path \<Rightarrow> exn + demo_img" where
  "demo_open p =
     (if str_contains ''broken'' p then Inl (OtherException ''UnidentifiedImageError'')
      else if str_contains ''-overlay.png'' (lower p) then Inr ((50, 50), ''RGBA'', None)
      else if str_contains ''noexif'' p then Inr ((100, 100), ''RGB'', None)
      else Inr ((100, 100), ''RGB'', Some [0x45, 0x78, 0x69, 0x66]))"

definition demo_env :: "(string \<times> string list option) list \<Rightarrow> (path list, demo_img) env" where
  "demo_env tree =
     \<lparr> os_path_exists = (\<lambda>w p. p = SOURCE_FOLDER),
       os_path_isdir = (\<lambda>w p. case demo_lookup tree p of Some (Some fs) \<Rightarrow> True | _ \<Rightarrow> False),
       os_listdir = (\<lambda>w p. if p = SOURCE_FOLDER then Inr (map fst tree)
                            else case demo_lookup tree p of
                                   Some (Some fs) \<Rightarrow> Inr fs
                                 | _ \<Rightarrow> Inl (OtherException ''NotADirectoryError'')),
       os_makedirs = (\<lambda>w p. (Inr (), w @ [p])),
       Image_open = (\<lambda>w p. demo_open p),
       img_convert = (\<lambda>im m. Inr (fst im, m, snd (snd im))),
       img_size = fst,
       img_mode = (\<lambda>im. fst (snd im)),
       img_resize = (\<lambda>im sz f. Inr (sz, snd im)),
       img_paste = (\<lambda>dst src box mask. Inr dst),
       img_info_get_exif = (\<lambda>im. Inr (snd (snd im))),
       img_save_jpeg = (\<lambda>w im p q ex. (Inr (), w @ [p])),
       subprocess_run = (\<lambda>w cmd. if str_contains ''broken'' (concat cmd)
                                  then (Inl (CalledProcessError ''Invalid data''), w)
                                  else if ''-y'' \<in> set cmd then (Inr (), w @ [last cmd])
                                  else (Inr (), w)),
       py_input = (\<lambda>w. (Inr ''y'', w)),
       py_print = (\<lambda>w m. Inr ()) \<rparr>"

text \<open>
  The same world with a console whose encoding is ASCII: \<open>print\<close> raises
  \<open>UnicodeEncodeError\<close> on every statement whose literal has a character outside ASCII.
  These are the lines of the source that print a pictograph or an arrow.
\<close>

definition non_ascii_lines :: "nat list" where
  "non_ascii_lines =
     [36, 39, 103, 132, 135, 147, 154, 155, 156, 159, 178, 200, 206, 223, 235, 237, 238, 239,
      241, 243, 246, 247, 248, 250, 252, 254, 290, 304, 317, 324]"

fun ascii_console :: "message \<Rightarrow> exn + unit" where
  "ascii_console (Line n vs) =
     (if n \<in> set non_ascii_lines then Inl (OtherException ''UnicodeEncodeError'') else Inr ())"

definition ascii_env :: "(string \<times> string list option) list \<Rightarrow> (path list, demo_img) env" where
  "ascii_env tree = (demo_env tree)\<lparr> py_print := (\<lambda>w m. ascii_console m) \<rparr>"




definition demo_tree :: "(string \<times> string list option) list" where
  "demo_tree =
     [(''memory1'', Some [''a-main.jpg'', ''a-overlay.png'']),
      (''plain'', Some [''b-main.jpg'', ''b-main.mp4'']),
      (''notes.txt'', None),
      (''memory3'', Some [''c-main.mp4'', ''C-OVERLAY.PNG''])]"


definition demo_memory1 :: folder_info where
  "demo_memory1 =
     \<lparr> folder_name = ''memory1'', folder_path = ''snapchat_memories/memory1'',
       overlays = [''snapchat_memories/memory1/a-overlay.png''],
       base_image = Some ''snapchat_memories/memory1/a-main.jpg'', base_video = None,
       is_image = True, is_video = False \<rparr>"

definition demo_memory3 :: folder_info where
  "demo_memory3 =
     \<lparr> folder_name = ''memory3'', folder_path = ''snapchat_memories/memory3'',
       overlays = [''snapchat_memories/memory3/C-OVERLAY.PNG''],
       base_image = None, base_video = Some ''snapchat_memories/memory3/c-main.mp4'',
       is_image = False, is_video = True \<rparr>"



definition demo_tree_both :: "(string \<times> string list option) list" where
  "demo_tree_both =
     [(''memory4'', Some [''d-main.jpg'', ''d-main.mp4'', ''d-overlay.png''])]"

definition demo_memory4 :: folder_info where
  "demo_memory4 =
     \<lparr> folder_name = ''memory4'', folder_path = ''snapchat_memories/memory4'',
       overlays = [''snapchat_memories/memory4/d-overlay.png''],
       base_image = Some ''snapchat_memories/memory4/d-main.jpg'',
       base_video = Some ''snapchat_memories/memory4/d-main.mp4'',
       is_image = True, is_video = True \<rparr>"

section \<open>The computations, applied to a state\<close>

lemma io_bind_apply:
  "io_bind m f s = (case m s of (Inl e, s') \<Rightarrow> (Inl e, s') | (Inr x, s') \<Rightarrow> f x s')"
  by (simp add: io_bind_def)

lemma io_return_apply: "io_return x s = (Inr x, s)"
  by (simp add: io_return_def)

lemma io_raise_apply: "io_raise e s = (Inl e, s)"
  by (simp add: io_raise_def)

lemma io_lift_apply: "io_lift r s = (r, s)"
  by (simp add: io_lift_def)

lemma io_try_apply:
  "io_try m h s =
     (case m s of
        (Inl e, s') \<Rightarrow> (case h e of None \<Rightarrow> (Inl e, s') | Some k \<Rightarrow> k s')
      | (Inr x, s') \<Rightarrow> (Inr x, s'))"
  by (simp add: io_try_def)

lemmas io_simps = io_bind_apply io_return_apply io_raise_apply io_lift_apply io_try_apply

lemma do_isdir_apply: "do_isdir env p (w, log) = (Inr (os_path_isdir env w p), (w, log @ [EIsdir p]))"
  by (simp add: do_isdir_def)
lemma do_exists_apply: "do_exists env p (w, log) = (Inr (os_path_exists env w p), (w, log @ [EExists p]))"
  by (simp add: do_exists_def)
lemma do_listdir_apply: "do_listdir env p (w, log) = (os_listdir env w p, (w, log @ [EListdir p]))"
  by (simp add: do_listdir_def)

lemma do_open_apply: "do_open env p (w, log) = (Image_open env w p, (w, log @ [EOpen p]))"
  by (simp add: do_open_def)
lemma do_save_apply: "do_save env im p q ex (w, log) =
   (fst (img_save_jpeg env w im p q ex), (snd (img_save_jpeg env w im p q ex), log @ [ESave im p q ex]))"
  by (simp add: do_save_def split: prod.splits)
lemma do_run_apply: "do_run env cmd (w, log) =
   (fst (subprocess_run env w cmd), (snd (subprocess_run env w cmd), log @ [ERun cmd]))"
  by (simp add: do_run_def split: prod.splits)
lemma do_makedirs_apply: "do_makedirs env p (w, log) =
   (fst (os_makedirs env w p), (snd (os_makedirs env w p), log @ [EMakedirs p]))"
  by (simp add: do_makedirs_def split: prod.splits)

lemma do_print_apply: "do_print env m (w, log) = (py_print env w m, (w, log @ [EPrint m]))"
  by (simp add: do_print_def)

lemma io_bind_cases:
  assumes "io_bind m f s = (r, s')"
  obtains (raised) e where "m s = (Inl e, s')" "r = Inl e"
    | (returned) x s1 where "m s = (Inr x, s1)" "f x s1 = (r, s')"
  using assms by (auto simp: io_bind_apply split: prod.splits sum.splits)

lemma do_prints_apply:
  "do_prints env ms (w, log) =
     (case do_prints env ms (w, []) of (r, (w', evs)) \<Rightarrow> (r, (w, log @ evs)))"
proof (induction ms arbitrary: log)
  case Nil
  show ?case by (simp add: io_return_apply)
next
  case (Cons m ms)
  show ?case
    by (cases "py_print env w m")
       (simp_all add: io_bind_apply do_print_apply Cons.IH[of "log @ [EPrint m]"]
          Cons.IH[of "[EPrint m]"] split: prod.splits)
qed


lemma do_prints_InrD:
  "do_prints env ms (w, log) = (Inr u, s') \<Longrightarrow>
   s' = (w, log @ map EPrint ms) \<and> (\<forall>m\<in>set ms. py_print env w m = Inr ())"
proof (induction ms arbitrary: log)
  case Nil
  then show ?case by (simp add: io_return_apply)
next
  case (Cons m ms)
  from Cons.prems have p: "py_print env w m = Inr ()"
    and r: "do_prints env ms (w, log @ [EPrint m]) = (Inr u, s')"
    by (auto simp: io_bind_apply do_print_apply split: sum.splits)
  from Cons.IH[OF r] p show ?case by simp
qed

lemma io_bind_InrD:
  "io_bind m f s = (Inr y, s') \<Longrightarrow> \<exists>x s1. m s = (Inr x, s1) \<and> f x s1 = (Inr y, s')"
  by (auto simp: io_bind_apply split: prod.splits sum.splits)

section \<open>What a computation logs, and whether it changes the world\<close>

lemma logs_onlyI:
  "(\<And>w log r w' log'. m (w, log) = (r, (w', log')) \<Longrightarrow> \<exists>evs. log' = log @ evs \<and> (\<forall>e\<in>set evs. P e))
   \<Longrightarrow> logs_only P m"
  unfolding logs_only_def by blast

lemma logs_onlyD:
  "logs_only P m \<Longrightarrow> m (w, log) = (r, (w', log')) \<Longrightarrow> \<exists>evs. log' = log @ evs \<and> (\<forall>e\<in>set evs. P e)"
  unfolding logs_only_def by blast

lemma logs_only_return [intro!]: "logs_only P (io_return x)"
  by (rule logs_onlyI) (simp add: io_return_apply)

lemma logs_only_raise [intro!]: "logs_only P (io_raise x)"
  by (rule logs_onlyI) (simp add: io_raise_apply)

lemma logs_only_lift [intro!]: "logs_only P (io_lift x)"
  by (rule logs_onlyI) (simp add: io_lift_apply)

lemma logs_only_bind [intro!]:
  assumes m: "logs_only P m" and f: "\<And>x. logs_only P (f x)"
  shows "logs_only P (io_bind m f)"
proof (rule logs_onlyI)
  fix w log r w' log'
  assume run: "io_bind m f (w, log) = (r, (w', log'))"
  obtain r1 w1 log1 where m1: "m (w, log) = (r1, (w1, log1))"
    by (metis surj_pair)
  from logs_onlyD[OF m m1] obtain evs1 where e1: "log1 = log @ evs1" "\<forall>e\<in>set evs1. P e"
    by blast
  show "\<exists>evs. log' = log @ evs \<and> (\<forall>e\<in>set evs. P e)"
  proof (cases r1)
    case (Inl e)
    with run m1 e1 show ?thesis by (auto simp: io_bind_apply)
  next
    case (Inr x)
    with run m1 have "f x (w1, log1) = (r, (w', log'))" by (simp add: io_bind_apply)
    from logs_onlyD[OF f this] obtain evs2 where "log' = log1 @ evs2" "\<forall>e\<in>set evs2. P e"
      by blast
    with e1 show ?thesis by (intro exI[of _ "evs1 @ evs2"]) auto
  qed
qed

lemma logs_only_try [intro!]:
  assumes m: "logs_only P m" and h: "\<And>e k. h e = Some k \<Longrightarrow> logs_only P k"
  shows "logs_only P (io_try m h)"
proof (rule logs_onlyI)
  fix w log r w' log'
  assume run: "io_try m h (w, log) = (r, (w', log'))"
  obtain r1 w1 log1 where m1: "m (w, log) = (r1, (w1, log1))"
    by (metis surj_pair)
  from logs_onlyD[OF m m1] obtain evs1 where e1: "log1 = log @ evs1" "\<forall>e\<in>set evs1. P e"
    by blast
  show "\<exists>evs. log' = log @ evs \<and> (\<forall>e\<in>set evs. P e)"
  proof (cases r1)
    case (Inr x)
    with run m1 e1 show ?thesis by (auto simp: io_try_apply)
  next
    case (Inl e)
    show ?thesis
    proof (cases "h e")
      case None
      with Inl run m1 e1 show ?thesis by (auto simp: io_try_apply)
    next
      case (Some k)
      with Inl run m1 have "k (w1, log1) = (r, (w', log'))" by (simp add: io_try_apply)
      from logs_onlyD[OF h[OF Some] this] obtain evs2 where "log' = log1 @ evs2" "\<forall>e\<in>set evs2. P e"
        by blast
      with e1 show ?thesis by (intro exI[of _ "evs1 @ evs2"]) auto
    qed
  qed
qed

lemma logs_only_if [intro!]:
  "(b \<Longrightarrow> logs_only P m) \<Longrightarrow> (\<not> b \<Longrightarrow> logs_only P n) \<Longrightarrow> logs_only P (if b then m else n)"
  by simp

lemma logs_only_prim:
  "P (EExists p) \<Longrightarrow> logs_only P (do_exists env p)"
  "P (EIsdir p) \<Longrightarrow> logs_only P (do_isdir env p)"
  "P (EListdir p) \<Longrightarrow> logs_only P (do_listdir env p)"
  "P (EMakedirs p) \<Longrightarrow> logs_only P (do_makedirs env p)"
  "P (EOpen p) \<Longrightarrow> logs_only P (do_open env p)"
  "P (ESave im p q ex) \<Longrightarrow> logs_only P (do_save env im p q ex)"
  "P (ERun cmd) \<Longrightarrow> logs_only P (do_run env cmd)"
  "P EInput \<Longrightarrow> logs_only P (do_input env)"
  "P (EPrint m) \<Longrightarrow> logs_only P (do_print env m)"
  by (auto simp: logs_only_def do_exists_def do_isdir_def do_listdir_def do_makedirs_def
        do_open_def do_save_def do_run_def do_input_def do_print_def split: prod.splits)

lemma world_constI:
  "(\<And>w log r w' log'. m (w, log) = (r, (w', log')) \<Longrightarrow> w' = w) \<Longrightarrow> world_const m"
  unfolding world_const_def by blast

lemma world_constD: "world_const m \<Longrightarrow> m (w, log) = (r, (w', log')) \<Longrightarrow> w' = w"
  unfolding world_const_def by blast

lemma world_const_basic [intro!]:
  "world_const (io_return x)" "world_const (io_raise e)" "world_const (io_lift r)"
  "world_const (do_exists env p)" "world_const (do_isdir env p)"
  "world_const (do_listdir env p)" "world_const (do_open env p)"
  "world_const (do_print env m)"
  by (auto simp: world_const_def io_return_def io_raise_def io_lift_def do_exists_def
        do_isdir_def do_listdir_def do_open_def do_print_def)

lemma world_const_bind [intro!]:
  assumes m: "world_const m" and f: "\<And>x. world_const (f x)"
  shows "world_const (io_bind m f)"
proof (rule world_constI)
  fix w log r w' log'
  assume run: "io_bind m f (w, log) = (r, (w', log'))"
  obtain r1 w1 log1 where m1: "m (w, log) = (r1, (w1, log1))"
    by (metis surj_pair)
  from world_constD[OF m m1] have w1: "w1 = w" .
  show "w' = w"
  proof (cases r1)
    case (Inl e)
    with run m1 w1 show ?thesis by (auto simp: io_bind_apply)
  next
    case (Inr x)
    with run m1 have "f x (w1, log1) = (r, (w', log'))" by (simp add: io_bind_apply)
    from world_constD[OF f this] w1 show ?thesis by simp
  qed
qed

lemma world_const_if [intro!]:
  "(b \<Longrightarrow> world_const m) \<Longrightarrow> (\<not> b \<Longrightarrow> world_const n) \<Longrightarrow> world_const (if b then m else n)"
  by simp

lemma logs_only_prints: "(\<And>m. P (EPrint m)) \<Longrightarrow> logs_only P (do_prints env ms)"
  by (induction ms) (auto intro!: logs_only_prim)

lemma world_const_prints [intro!]: "world_const (do_prints env ms)"
  by (induction ms) auto

lemma is_read_not_run: "is_read e \<Longrightarrow> \<not> is_run e"
  by (cases e) simp_all

lemma is_print_not_run: "is_print e \<Longrightarrow> \<not> is_run e"
  by (cases e) simp_all

lemma no_runs_appended:
  assumes "logs_only P m" and "\<And>e. P e \<Longrightarrow> \<not> is_run e" and "m (w, log) = (r, (w', log'))"
  shows "filter is_run log' = filter is_run log"
proof -
  from logs_onlyD[OF assms(1,3)] obtain evs where "log' = log @ evs" "\<forall>e\<in>set evs. P e"
    by blast
  with assms(2) show ?thesis by (auto simp: filter_empty_conv)
qed

lemma logs_only_mono: "logs_only P m \<Longrightarrow> (\<And>e. P e \<Longrightarrow> Q e) \<Longrightarrow> logs_only Q m"
  unfolding logs_only_def by blast

section \<open>Discovery\<close>

lemma make_folder_info_sel [simp]:
  "folder_name (make_folder_info item p files) = item"
  "folder_path (make_folder_info item p files) = p"
  "overlays (make_folder_info item p files) = map (os_path_join p) (overlay_files_of files)"
  "is_image (make_folder_info item p files) = (main_images_of files \<noteq> [])"
  "is_video (make_folder_info item p files) = (main_videos_of files \<noteq> [])"
  by (simp_all add: make_folder_info_def Let_def)

lemma scan_entries_result:
  "scan_entries env directory names acc (w, log) = (Inr items, s') \<Longrightarrow>
   \<exists>new. items = acc @ new \<and> (\<forall>fi\<in>set new. discovered env w directory fi) \<and>
         map folder_name new = filter (keeps env w directory) names"
proof (induction names arbitrary: acc log)
  case Nil
  then show ?case by (simp add: io_simps)
next
  case (Cons item rest)
  let ?p = "os_path_join directory item"
  show ?case
  proof (cases "os_path_isdir env w ?p")
    case False
    with Cons.prems have "scan_entries env directory rest acc (w, log @ [EIsdir ?p]) = (Inr items, s')"
      by (simp add: io_simps do_isdir_apply Let_def)
    from Cons.IH[OF this] False show ?thesis by (simp add: keeps_def)
  next
    case True
    show ?thesis
    proof (cases "os_listdir env w ?p")
      case (Inl e)
      with Cons.prems True show ?thesis
        by (simp add: io_simps do_isdir_apply do_listdir_apply Let_def)
    next
      case (Inr files)
      show ?thesis
      proof (cases "overlay_files_of files = []")
        case True
        with Cons.prems \<open>os_path_isdir env w ?p\<close> Inr
        have "scan_entries env directory rest acc (w, log @ [EIsdir ?p] @ [EListdir ?p]) = (Inr items, s')"
          by (simp add: io_simps do_isdir_apply do_listdir_apply Let_def)
        from Cons.IH[OF this] True Inr show ?thesis by (simp add: keeps_def)
      next
        case False
        with Cons.prems \<open>os_path_isdir env w ?p\<close> Inr
        have "scan_entries env directory rest (acc @ [make_folder_info item ?p files])
                (w, log @ [EIsdir ?p] @ [EListdir ?p]) = (Inr items, s')"
          by (simp add: io_simps do_isdir_apply do_listdir_apply Let_def)
        from Cons.IH[OF this] obtain new where
          new: "items = (acc @ [make_folder_info item ?p files]) @ new"
               "\<forall>fi\<in>set new. discovered env w directory fi"
               "map folder_name new = filter (keeps env w directory) rest"
          by blast
        have d: "discovered env w directory (make_folder_info item ?p files)"
          unfolding discovered_def using \<open>os_path_isdir env w ?p\<close> Inr False
          by (intro exI[of _ files]) simp
        have k: "keeps env w directory item"
          using \<open>os_path_isdir env w ?p\<close> Inr False by (simp add: keeps_def)
        show ?thesis
          using new d k
          by (intro exI[of _ "make_folder_info item ?p files # new"]) simp
      qed
    qed
  qed
qed

lemma scan_entries_reads:
  "logs_only is_read (scan_entries env directory names acc)"
  by (induction names arbitrary: acc) (auto simp: Let_def intro!: logs_only_prim)

lemma scan_entries_listing:
  "logs_only (\<lambda>e. (\<exists>p. e = EIsdir p) \<or> (\<exists>p. e = EListdir p))
     (scan_entries env directory names acc)"
  by (induction names arbitrary: acc) (auto simp: Let_def intro!: logs_only_prim)

lemma scan_entries_world:
  "world_const (scan_entries env directory names acc)"
  by (induction names arbitrary: acc) (auto simp: Let_def)

lemma find_overlay_folders_reads:
  "logs_only (\<lambda>e. is_read e \<or> is_print e) (find_overlay_folders env directory)"
  unfolding find_overlay_folders_def
  by (auto intro!: logs_only_prim logs_only_mono[OF scan_entries_reads])

lemma find_overlay_folders_world: "world_const (find_overlay_folders env directory)"
  unfolding find_overlay_folders_def
  by (auto intro!: scan_entries_world)

lemma find_overlay_folders_result:
  assumes "find_overlay_folders env directory (w, log) = (Inr items, s')"
  shows "(\<forall>fi\<in>set items. discovered env w directory fi) \<and>
         (items = [] \<or> (\<exists>names. os_listdir env w directory = Inr names \<and>
            map folder_name items = filter (keeps env w directory) names))"
proof (cases "os_path_exists env w directory")
  case False
  with assms show ?thesis
    by (auto simp: find_overlay_folders_def io_simps do_exists_apply do_print_apply
          split: sum.splits)
next
  case True
  with assms have p: "py_print env w (Line 39 []) = Inr ()"
    by (auto simp: find_overlay_folders_def io_simps do_exists_apply do_print_apply
          split: sum.splits)
  show ?thesis
  proof (cases "os_listdir env w directory")
    case (Inl e)
    with assms True p show ?thesis
      by (simp add: find_overlay_folders_def io_simps do_exists_apply do_listdir_apply
            do_print_apply)
  next
    case (Inr names)
    with assms True p
    have "scan_entries env directory names []
            (w, log @ [EExists directory, EPrint (Line 39 []), EListdir directory])
            = (Inr items, s')"
      by (simp add: find_overlay_folders_def io_simps do_exists_apply do_listdir_apply
            do_print_apply)
    from scan_entries_result[OF this] Inr show ?thesis by auto
  qed
qed

text \<open>
  Claim C4, as amended. For a root path that does not exist, discovery makes two calls, the
  existence test and the \<open>print\<close> of line 36, and leaves the world unchanged. It returns
  the empty list when the console accepts the message; otherwise the exception that leaves
  discovery is the one that \<open>print\<close> raised.
\<close>

theorem discover_missing_root_is_empty_unless_print_raises:
  "\<not> os_path_exists env w directory \<Longrightarrow>
   find_overlay_folders env directory (w, log)
     = (map_sum id (\<lambda>u. []) (py_print env w (Line 36 [PStr directory])),
        (w, log @ [EExists directory, EPrint (Line 36 [PStr directory])]))"
  by (cases "py_print env w (Line 36 [PStr directory])")
     (simp_all add: find_overlay_folders_def io_simps do_exists_apply do_print_apply)

theorem discover_missing_root_is_empty_unless_print_raises_witness:
  "\<not> os_path_exists (demo_env demo_tree) [] ''nowhere'' \<and>
   find_overlay_folders (demo_env demo_tree) ''nowhere'' ([], [])
     = (Inr [], ([], [EExists ''nowhere'', EPrint (Line 36 [PStr ''nowhere''])]))"
proof -
  have h: "\<not> os_path_exists (demo_env demo_tree) [] ''nowhere''"
    by (simp add: demo_env_def SOURCE_FOLDER_def)
  have p: "py_print (demo_env demo_tree) [] (Line 36 [PStr ''nowhere'']) = Inr ()"
    by (simp add: demo_env_def)
  from discover_missing_root_is_empty_unless_print_raises[OF h, of "[]"] h p
  show ?thesis by simp
qed

text \<open>
  Claim C4 as it was stated, that no exception is raised for a missing root, fails on a
  console whose encoding is ASCII: the message of line 36 starts with a pictograph, and the
  \<open>UnicodeEncodeError\<close> that \<open>print\<close> raises leaves \<open>find_overlay_folders\<close>.
\<close>

theorem discover_missing_root_raises_on_ascii_console:
  "\<not> os_path_exists (ascii_env demo_tree) [] ''nowhere'' \<and>
   find_overlay_folders (ascii_env demo_tree) ''nowhere'' ([], [])
     = (Inl (OtherException ''UnicodeEncodeError''),
        ([], [EExists ''nowhere'', EPrint (Line 36 [PStr ''nowhere''])]))"
  by code_simp

text \<open>
  Claim C3. Every dictionary that discovery returns has a non-empty list of overlays, and no
  entry of the root whose listing has no overlay file (whatever base files it holds)
  is among the folders returned.
\<close>

theorem discover_excludes_folders_without_overlay:
  assumes "find_overlay_folders env directory (w, log) = (Inr items, s')"
  shows "(\<forall>fi\<in>set items. overlays fi \<noteq> []) \<and>
         (\<forall>item files. os_listdir env w (os_path_join directory item) = Inr files \<longrightarrow>
            overlay_files_of files = [] \<longrightarrow> item \<notin> folder_name ` set items)"
proof -
  from find_overlay_folders_result[OF assms]
  have d: "\<forall>fi\<in>set items. discovered env w directory fi" by blast
  have a: "\<forall>fi\<in>set items. overlays fi \<noteq> []"
  proof
    fix fi assume "fi \<in> set items"
    with d obtain files where "overlay_files_of files \<noteq> []"
      "fi = make_folder_info (folder_name fi) (folder_path fi) files"
      unfolding discovered_def by blast
    then show "overlays fi \<noteq> []"
      by (metis make_folder_info_sel(3) map_is_Nil_conv)
  qed
  have b: "item \<notin> folder_name ` set items"
    if l: "os_listdir env w (os_path_join directory item) = Inr files"
      and e: "overlay_files_of files = []" for item files
  proof
    assume "item \<in> folder_name ` set items"
    then obtain fi where fi: "fi \<in> set items" "folder_name fi = item" by auto
    with d obtain files' where "folder_path fi = os_path_join directory item"
      "os_listdir env w (folder_path fi) = Inr files'" "overlay_files_of files' \<noteq> []"
      unfolding discovered_def by auto
    with l e show False by simp
  qed
  from a b show ?thesis by blast
qed

theorem discover_excludes_folders_without_overlay_witness:
  "\<exists>items s'. find_overlay_folders (demo_env demo_tree) SOURCE_FOLDER ([], []) = (Inr items, s') \<and>
      map folder_name items = [''memory1'', ''memory3''] \<and>
      os_listdir (demo_env demo_tree) [] (os_path_join SOURCE_FOLDER ''plain'')
        = Inr [''b-main.jpg'', ''b-main.mp4''] \<and>
      overlay_files_of [''b-main.jpg'', ''b-main.mp4''] = [] \<and>
      [] \<notin> overlays ` set items \<and>
      ''plain'' \<notin> folder_name ` set items"
proof -
  obtain r s' where run: "find_overlay_folders (demo_env demo_tree) SOURCE_FOLDER ([], []) = (r, s')"
    by (metis surj_pair)
  have "map_sum id (map folder_name) (fst (find_overlay_folders (demo_env demo_tree) SOURCE_FOLDER ([], [])))
          = Inr [''memory1'', ''memory3'']"
    by code_simp
  with run obtain items where items: "r = Inr items" "map folder_name items = [''memory1'', ''memory3'']"
    by (cases r) auto
  have l: "os_listdir (demo_env demo_tree) [] (os_path_join SOURCE_FOLDER ''plain'')
        = Inr [''b-main.jpg'', ''b-main.mp4'']"
    by code_simp
  have e: "overlay_files_of [''b-main.jpg'', ''b-main.mp4''] = []"
    by code_simp
  from discover_excludes_folders_without_overlay[OF run[unfolded items(1)]] l e
  have "[] \<notin> overlays ` set items \<and> ''plain'' \<notin> folder_name ` set items"
    by force
  with run items l e show ?thesis
    by (intro exI[of _ items] exI[of _ s']) simp
qed

section \<open>The entry point\<close>

text \<open>
  Claim C7. A quality outside 1..100 ends \<open>main\<close> before anything but the \<open>print\<close> of
  line 290 happens: the world is unchanged and that \<open>print\<close> is the only call logged, so
  there was no scan, no probe of the video tool and no write. The program exits with
  status 1, or with the exception of that \<open>print\<close> when the console refuses the message.
\<close>

theorem quality_out_of_range_rejected:
  "\<not> (1 \<le> arg_quality a \<and> arg_quality a \<le> 100) \<Longrightarrow>
   main env a (w, log)
     = (map_sum id (\<lambda>u. SysExit 1) (py_print env w (Line 290 [])),
        (w, log @ [EPrint (Line 290 [])]))"
  by (cases "py_print env w (Line 290 [])")
     (simp_all add: main_def io_simps do_print_apply)

theorem quality_out_of_range_rejected_witness:
  "\<not> (1 \<le> (150::int) \<and> (150::int) \<le> 100) \<and>
   main (demo_env demo_tree) \<lparr>arg_execute = True, arg_quality = 150, arg_skip_prompt = True\<rparr>
     ([], []) = (Inr (SysExit 1), ([], [EPrint (Line 290 [])]))"
proof -
  have p: "py_print (demo_env demo_tree) [] (Line 290 []) = Inr ()"
    by (simp add: demo_env_def)
  from quality_out_of_range_rejected
    [of "\<lparr>arg_execute = True, arg_quality = 150, arg_skip_prompt = True\<rparr>"
        "demo_env demo_tree" "[]" "[]"] p
  show ?thesis by simp
qed

section \<open>The image compositor\<close>

lemma exif_lookup_apply:
  "io_try (io_lift (img_info_get_exif env base_img)) (\<lambda>e. Some (io_return None)) s =
     (Inr (case img_info_get_exif env base_img of Inl e \<Rightarrow> None | Inr v \<Rightarrow> v), s)"
  by (simp add: io_simps split: sum.splits)

lemma save_step_apply:
  "(if truthy_bytes v then do_save env im p q v else do_save env im p q None) (w, log) =
     (fst (img_save_jpeg env w im p q (if truthy_bytes v then v else None)),
      (snd (img_save_jpeg env w im p q (if truthy_bytes v then v else None)),
       log @ [ESave im p q (if truthy_bytes v then v else None)]))"
  by (simp add: do_save_apply)

lemma exif_argument_alt:
  "exif_argument env base_img =
     (let v = (case img_info_get_exif env base_img of Inl e \<Rightarrow> None | Inr v \<Rightarrow> v)
      in if truthy_bytes v then v else None)"
  by (simp add: exif_argument_def truthy_bytes_def split: sum.splits)

lemma combine_image_success:
  assumes "combine_image env bp overlay_path out q (w, log) = (Inr True, (w', log'))"
  shows "\<exists>base_path base_img base overlay_img overlay0 overlay out_img.
     bp = Some base_path \<and>
     Image_open env w base_path = Inr base_img \<and>
     img_convert env base_img ''RGB'' = Inr base \<and>
     Image_open env w overlay_path = Inr overlay_img \<and>
     img_convert env overlay_img ''RGBA'' = Inr overlay0 \<and>
     (if img_size env overlay0 \<noteq> img_size env base
      then img_resize env overlay0 (img_size env base) LANCZOS = Inr overlay
      else overlay = overlay0) \<and>
     img_paste env base overlay (0, 0) overlay = Inr out_img \<and>
     img_save_jpeg env w out_img out q (exif_argument env base_img) = (Inr (), w') \<and>
     log' = log @ [EOpen base_path, EOpen overlay_path,
                   ESave out_img out q (exif_argument env base_img)]"
proof -
  from assms have body: "combine_image_body env bp overlay_path out q (w, log) = (Inr True, (w', log'))"
    by (auto simp: combine_image_def io_try_apply io_bind_apply io_return_apply do_print_apply
          split: prod.splits sum.splits)
  from io_bind_InrD[OF body[unfolded combine_image_body_def]]
  obtain base_img s1 where
    o1: "do_open_arg env bp (w, log) = (Inr base_img, s1)" and
    k1: "io_bind (io_lift (img_convert env base_img ''RGB'')) (\<lambda>base.
     io_bind (do_open env overlay_path) (\<lambda>overlay_img.
     io_bind (io_lift (img_convert env overlay_img ''RGBA'')) (\<lambda>overlay.
     io_bind (if img_size env overlay \<noteq> img_size env base
              then io_lift (img_resize env overlay (img_size env base) LANCZOS)
              else io_return overlay) (\<lambda>overlay.
     io_bind (io_lift (img_paste env base overlay (0, 0) overlay)) (\<lambda>base.
     io_bind (io_try (io_lift (img_info_get_exif env base_img)) (\<lambda>e. Some (io_return None)))
       (\<lambda>exif_data.
     io_bind (if truthy_bytes exif_data
              then do_save env base out q exif_data
              else do_save env base out q None) (\<lambda>_.
     io_return True))))))) s1 = (Inr True, (w', log'))"
    by blast
  from o1 obtain base_path where bp: "bp = Some base_path"
    and ob: "Image_open env w base_path = Inr base_img" and s1: "s1 = (w, log @ [EOpen base_path])"
    by (cases bp) (auto simp: do_open_arg_def io_raise_apply do_open_apply)
  from io_bind_InrD[OF k1] obtain base s2 where
    c1: "io_lift (img_convert env base_img ''RGB'') s1 = (Inr base, s2)" and
    k2: "io_bind (do_open env overlay_path) (\<lambda>overlay_img.
     io_bind (io_lift (img_convert env overlay_img ''RGBA'')) (\<lambda>overlay.
     io_bind (if img_size env overlay \<noteq> img_size env base
              then io_lift (img_resize env overlay (img_size env base) LANCZOS)
              else io_return overlay) (\<lambda>overlay.
     io_bind (io_lift (img_paste env base overlay (0, 0) overlay)) (\<lambda>base.
     io_bind (io_try (io_lift (img_info_get_exif env base_img)) (\<lambda>e. Some (io_return None)))
       (\<lambda>exif_data.
     io_bind (if truthy_bytes exif_data
              then do_save env base out q exif_data
              else do_save env base out q None) (\<lambda>_.
     io_return True)))))) s2 = (Inr True, (w', log'))"
    by blast
  from c1 s1 have cb: "img_convert env base_img ''RGB'' = Inr base" and s2: "s2 = (w, log @ [EOpen base_path])"
    by (auto simp: io_lift_apply)
  from io_bind_InrD[OF k2] obtain overlay_img s3 where
    o2: "do_open env overlay_path s2 = (Inr overlay_img, s3)" and
    k3: "io_bind (io_lift (img_convert env overlay_img ''RGBA'')) (\<lambda>overlay.
     io_bind (if img_size env overlay \<noteq> img_size env base
              then io_lift (img_resize env overlay (img_size env base) LANCZOS)
              else io_return overlay) (\<lambda>overlay.
     io_bind (io_lift (img_paste env base overlay (0, 0) overlay)) (\<lambda>base.
     io_bind (io_try (io_lift (img_info_get_exif env base_img)) (\<lambda>e. Some (io_return None)))
       (\<lambda>exif_data.
     io_bind (if truthy_bytes exif_data
              then do_save env base out q exif_data
              else do_save env base out q None) (\<lambda>_.
     io_return True))))) s3 = (Inr True, (w', log'))"
    by blast
  from o2 s2 have oo: "Image_open env w overlay_path = Inr overlay_img"
    and s3: "s3 = (w, log @ [EOpen base_path, EOpen overlay_path])"
    by (auto simp: do_open_apply)
  from io_bind_InrD[OF k3] obtain overlay0 s4 where
    c2: "io_lift (img_convert env overlay_img ''RGBA'') s3 = (Inr overlay0, s4)" and
    k4: "io_bind (if img_size env overlay0 \<noteq> img_size env base
              then io_lift (img_resize env overlay0 (img_size env base) LANCZOS)
              else io_return overlay0) (\<lambda>overlay.
     io_bind (io_lift (img_paste env base overlay (0, 0) overlay)) (\<lambda>base.
     io_bind (io_try (io_lift (img_info_get_exif env base_img)) (\<lambda>e. Some (io_return None)))
       (\<lambda>exif_data.
     io_bind (if truthy_bytes exif_data
              then do_save env base out q exif_data
              else do_save env base out q None) (\<lambda>_.
     io_return True)))) s4 = (Inr True, (w', log'))"
    by blast
  from c2 s3 have co: "img_convert env overlay_img ''RGBA'' = Inr overlay0"
    and s4: "s4 = (w, log @ [EOpen base_path, EOpen overlay_path])"
    by (auto simp: io_lift_apply)
  from io_bind_InrD[OF k4] obtain overlay s5 where
    r: "(if img_size env overlay0 \<noteq> img_size env base
              then io_lift (img_resize env overlay0 (img_size env base) LANCZOS)
              else io_return overlay0) s4 = (Inr overlay, s5)" and
    k5: "io_bind (io_lift (img_paste env base overlay (0, 0) overlay)) (\<lambda>base.
     io_bind (io_try (io_lift (img_info_get_exif env base_img)) (\<lambda>e. Some (io_return None)))
       (\<lambda>exif_data.
     io_bind (if truthy_bytes exif_data
              then do_save env base out q exif_data
              else do_save env base out q None) (\<lambda>_.
     io_return True))) s5 = (Inr True, (w', log'))"
    by blast
  from r s4 have rs: "if img_size env overlay0 \<noteq> img_size env base
      then img_resize env overlay0 (img_size env base) LANCZOS = Inr overlay
      else overlay = overlay0"
    and s5: "s5 = (w, log @ [EOpen base_path, EOpen overlay_path])"
    by (auto simp: io_lift_apply io_return_apply split: if_splits)
  from io_bind_InrD[OF k5] obtain out_img s6 where
    p: "io_lift (img_paste env base overlay (0, 0) overlay) s5 = (Inr out_img, s6)" and
    k6: "io_bind (io_try (io_lift (img_info_get_exif env base_img)) (\<lambda>e. Some (io_return None)))
       (\<lambda>exif_data.
     io_bind (if truthy_bytes exif_data
              then do_save env out_img out q exif_data
              else do_save env out_img out q None) (\<lambda>_.
     io_return True)) s6 = (Inr True, (w', log'))"
    by blast
  from p s5 have ps: "img_paste env base overlay (0, 0) overlay = Inr out_img"
    and s6: "s6 = (w, log @ [EOpen base_path, EOpen overlay_path])"
    by (auto simp: io_lift_apply)
  from k6 have sv: "img_save_jpeg env w out_img out q (exif_argument env base_img) = (Inr (), w')"
    and lg: "log' = log @ [EOpen base_path, EOpen overlay_path,
                   ESave out_img out q (exif_argument env base_img)]"
    unfolding s6 exif_argument_alt Let_def
    by (auto simp: io_bind_apply exif_lookup_apply save_step_apply io_return_apply
          split: sum.splits prod.splits intro: prod_eqI)
  from bp ob cb oo co rs ps sv lg show ?thesis by blast
qed

lemma combine_image_succeeds:
  assumes "Image_open env w base_path = Inr base_img"
    and "img_convert env base_img ''RGB'' = Inr base"
    and "Image_open env w overlay_path = Inr overlay_img"
    and "img_convert env overlay_img ''RGBA'' = Inr overlay0"
    and "if img_size env overlay0 \<noteq> img_size env base
         then img_resize env overlay0 (img_size env base) LANCZOS = Inr overlay
         else overlay = overlay0"
    and "img_paste env base overlay (0, 0) overlay = Inr out_img"
    and "img_save_jpeg env w out_img out q (exif_argument env base_img) = (Inr (), w')"
  shows "combine_image env (Some base_path) overlay_path out q (w, log) =
           (Inr True, (w', log @ [EOpen base_path, EOpen overlay_path,
                   ESave out_img out q (exif_argument env base_img)]))"
proof -
  have "combine_image_body env (Some base_path) overlay_path out q (w, log) =
           (Inr True, (w', log @ [EOpen base_path, EOpen overlay_path,
                   ESave out_img out q (exif_argument env base_img)]))"
    using assms
    unfolding combine_image_body_def do_open_arg_def exif_argument_alt Let_def
    by (simp add: io_bind_apply io_lift_apply io_return_apply do_open_apply exif_lookup_apply
          do_save_apply split: if_splits)
  then show ?thesis by (simp add: combine_image_def io_try_apply)
qed

text \<open>A \<open>print\<close> followed by a \<open>return\<close>, as in the three \<open>except\<close> clauses.\<close>

lemma print_return_apply:
  "io_bind (do_print env m) (\<lambda>_. io_return x) (w, log)
     = (map_sum id (\<lambda>u. x) (py_print env w m), (w, log @ [EPrint m]))"
  by (cases "py_print env w m") (simp_all add: io_simps do_print_apply)


lemma combine_video_apply:
  "combine_video env (Some b) ov out (w, log) =
     (case subprocess_run env w (ffmpeg_cmd b ov out) of
        (Inr u, w1) \<Rightarrow> (Inr True, (w1, log @ [ERun (ffmpeg_cmd b ov out)]))
      | (Inl (CalledProcessError err), w1) \<Rightarrow>
          (map_sum id (\<lambda>u. False) (py_print env w1 (Line 132 [PStr err])),
           (w1, log @ [ERun (ffmpeg_cmd b ov out), EPrint (Line 132 [PStr err])]))
      | (Inl e, w1) \<Rightarrow>
          (map_sum id (\<lambda>u. False) (py_print env w1 (Line 135 [PExn e])),
           (w1, log @ [ERun (ffmpeg_cmd b ov out), EPrint (Line 135 [PExn e])])))"
  "combine_video env None ov out (w, log) =
     (map_sum id (\<lambda>u. False) (py_print env w (Line 135 [PExn (OtherException ''TypeError'')])),
      (w, log @ [EPrint (Line 135 [PExn (OtherException ''TypeError'')])]))"
  by (auto simp: combine_video_def io_try_apply io_bind_apply io_return_apply io_raise_apply
        do_run_apply do_print_apply split: prod.splits sum.splits exn.splits)





lemma combine_image_logs: "logs_only (saves_to out q) (combine_image env bp ov out q)"
  unfolding combine_image_def combine_image_body_def do_open_arg_def
  by (auto intro!: logs_only_prim split: option.splits)

lemma combine_video_logs:
  "logs_only (\<lambda>e. is_run e \<or> is_print e) (combine_video env bp ov out)"
  unfolding combine_video_def
  by (auto intro!: logs_only_prim split: option.splits exn.splits)

text \<open>
  Claim C5. Stated against the documented behaviour of the imaging library, taken as
  hypotheses: \<open>convert\<close> keeps the size and sets the mode, \<open>resize\<close> returns an image of
  the requested size, and \<open>paste\<close> keeps the size and the mode of its receiver. Then a call
  of \<open>combine_image\<close> that returns \<open>True\<close> has saved one image: the file at the base
  path converted to \<open>RGB\<close>, with the file at the overlay path, converted to \<open>RGBA\<close> and
  resized with \<open>LANCZOS\<close> to the base's size when its size differed, pasted on it at the
  origin with itself as mask. The overlay pasted has the base's size, and the image saved has
  the base's size and the three-channel mode.
\<close>

theorem image_output_has_base_dimensions_and_no_alpha:
  assumes conv: "\<forall>im m im'. img_convert env im m = Inr im' \<longrightarrow>
                   img_size env im' = img_size env im \<and> img_mode env im' = m"
    and rsz: "\<forall>im sz f im'. img_resize env im sz f = Inr im' \<longrightarrow> img_size env im' = sz"
    and pst: "\<forall>dst src box mask dst'. img_paste env dst src box mask = Inr dst' \<longrightarrow>
                   img_size env dst' = img_size env dst \<and> img_mode env dst' = img_mode env dst"
    and run: "combine_image env (Some base_path) overlay_path output_path quality (w, log)
                = (Inr True, (w', log'))"
  shows "\<exists>base_img base overlay_img overlay0 overlay out_img.
           Image_open env w base_path = Inr base_img \<and>
           img_convert env base_img ''RGB'' = Inr base \<and>
           Image_open env w overlay_path = Inr overlay_img \<and>
           img_convert env overlay_img ''RGBA'' = Inr overlay0 \<and>
           (if img_size env overlay0 \<noteq> img_size env base
            then img_resize env overlay0 (img_size env base) LANCZOS = Inr overlay
            else overlay = overlay0) \<and>
           img_size env overlay = img_size env base_img \<and>
           img_paste env base overlay (0, 0) overlay = Inr out_img \<and>
           img_size env out_img = img_size env base_img \<and>
           img_mode env out_img = ''RGB'' \<and>
           img_save_jpeg env w out_img output_path quality (exif_argument env base_img)
             = (Inr (), w') \<and>
           log' = log @ [EOpen base_path, EOpen overlay_path,
                         ESave out_img output_path quality (exif_argument env base_img)]"
proof -
  from combine_image_success[OF run]
  obtain base_img base overlay_img overlay0 overlay out_img where
    ob: "Image_open env w base_path = Inr base_img" and
    cb: "img_convert env base_img ''RGB'' = Inr base" and
    oo: "Image_open env w overlay_path = Inr overlay_img" and
    co: "img_convert env overlay_img ''RGBA'' = Inr overlay0" and
    rs: "if img_size env overlay0 \<noteq> img_size env base
         then img_resize env overlay0 (img_size env base) LANCZOS = Inr overlay
         else overlay = overlay0" and
    ps: "img_paste env base overlay (0, 0) overlay = Inr out_img" and
    sv: "img_save_jpeg env w out_img output_path quality (exif_argument env base_img) = (Inr (), w')" and
    lg: "log' = log @ [EOpen base_path, EOpen overlay_path,
                   ESave out_img output_path quality (exif_argument env base_img)]"
    by blast
  from conv cb have b: "img_size env base = img_size env base_img" "img_mode env base = ''RGB''"
    by blast+
  have o: "img_size env overlay = img_size env base"
  proof (cases "img_size env overlay0 \<noteq> img_size env base")
    case True
    with rs have "img_resize env overlay0 (img_size env base) LANCZOS = Inr overlay" by simp
    with rsz show ?thesis by blast
  next
    case False
    with rs show ?thesis by simp
  qed
  from pst ps have p: "img_size env out_img = img_size env base" "img_mode env out_img = img_mode env base"
    by blast+
  from ob cb oo co rs ps sv lg b o p show ?thesis
    by (intro exI[of _ base_img] exI[of _ base] exI[of _ overlay_img] exI[of _ overlay0]
          exI[of _ overlay] exI[of _ out_img]) simp
qed

lemma demo_combine_image:
  "combine_image (demo_env demo_tree) (Some ''m/a-main.jpg'') ''m/a-overlay.png''
     ''out/m_combined.jpg'' 95 ([], [])
   = (Inr True, ([''out/m_combined.jpg''],
        [EOpen ''m/a-main.jpg'', EOpen ''m/a-overlay.png'',
         ESave ((100, 100), ''RGB'', Some [0x45, 0x78, 0x69, 0x66]) ''out/m_combined.jpg'' 95
           (Some [0x45, 0x78, 0x69, 0x66])]))"
  by code_simp

theorem image_output_has_base_dimensions_and_no_alpha_witness:
  "combine_image (demo_env demo_tree) (Some ''m/a-main.jpg'') ''m/a-overlay.png''
     ''out/m_combined.jpg'' 95 ([], [])
   = (Inr True, ([''out/m_combined.jpg''],
        [EOpen ''m/a-main.jpg'', EOpen ''m/a-overlay.png'',
         ESave ((100, 100), ''RGB'', Some [0x45, 0x78, 0x69, 0x66]) ''out/m_combined.jpg'' 95
           (Some [0x45, 0x78, 0x69, 0x66])])) \<and>
   Image_open (demo_env demo_tree) [] ''m/a-main.jpg'' = Inr ((100, 100), ''RGB'', Some [0x45, 0x78, 0x69, 0x66]) \<and>
   Image_open (demo_env demo_tree) [] ''m/a-overlay.png'' = Inr ((50, 50), ''RGBA'', None) \<and>
   (\<exists>overlay0 overlay out_img.
      img_convert (demo_env demo_tree) ((50, 50), ''RGBA'', None) ''RGBA'' = Inr overlay0 \<and>
      img_size (demo_env demo_tree) overlay0 = (50, 50) \<and>
      img_resize (demo_env demo_tree) overlay0 (100, 100) LANCZOS = Inr overlay \<and>
      img_size (demo_env demo_tree) overlay = (100, 100) \<and>
      img_size (demo_env demo_tree) out_img = (100, 100) \<and>
      img_mode (demo_env demo_tree) out_img = ''RGB'')"
proof -
  let ?D = "demo_env demo_tree"
  have conv: "\<forall>im m im'. img_convert ?D im m = Inr im' \<longrightarrow>
                   img_size ?D im' = img_size ?D im \<and> img_mode ?D im' = m"
    by (auto simp: demo_env_def)
  have rsz: "\<forall>im sz f im'. img_resize ?D im sz f = Inr im' \<longrightarrow> img_size ?D im' = sz"
    by (auto simp: demo_env_def)
  have pst: "\<forall>dst src box mask dst'. img_paste ?D dst src box mask = Inr dst' \<longrightarrow>
                   img_size ?D dst' = img_size ?D dst \<and> img_mode ?D dst' = img_mode ?D dst"
    by (auto simp: demo_env_def)
  have ob: "Image_open ?D [] ''m/a-main.jpg'' = Inr ((100, 100), ''RGB'', Some [0x45, 0x78, 0x69, 0x66])"
    by code_simp
  have oo: "Image_open ?D [] ''m/a-overlay.png'' = Inr ((50, 50), ''RGBA'', None)"
    by code_simp
  from image_output_has_base_dimensions_and_no_alpha[OF conv rsz pst demo_combine_image]
  obtain base_img base overlay_img overlay0 overlay out_img where f:
    "Image_open ?D [] ''m/a-main.jpg'' = Inr base_img"
    "img_convert ?D base_img ''RGB'' = Inr base"
    "Image_open ?D [] ''m/a-overlay.png'' = Inr overlay_img"
    "img_convert ?D overlay_img ''RGBA'' = Inr overlay0"
    "if img_size ?D overlay0 \<noteq> img_size ?D base
     then img_resize ?D overlay0 (img_size ?D base) LANCZOS = Inr overlay
     else overlay = overlay0"
    "img_size ?D overlay = img_size ?D base_img"
    "img_size ?D out_img = img_size ?D base_img"
    "img_mode ?D out_img = ''RGB''"
    by blast
  from f(1) ob have bi: "base_img = ((100, 100), ''RGB'', Some [0x45, 0x78, 0x69, 0x66])" by simp
  from f(3) oo have oi: "overlay_img = ((50, 50), ''RGBA'', None)" by simp
  from f(2) bi have bs: "img_size ?D base = (100, 100)" by (auto simp: demo_env_def)
  from f(4) oi have os: "img_size ?D overlay0 = (50, 50)" by (auto simp: demo_env_def)
  from f(5) bs os have rz: "img_resize ?D overlay0 (100, 100) LANCZOS = Inr overlay" by simp
  from f(6,7) bi have sz: "img_size ?D overlay = (100, 100)" "img_size ?D out_img = (100, 100)"
    by (simp_all add: demo_env_def)
  from f(4) oi os rz sz f(8)
  have "\<exists>overlay0 overlay out_img.
      img_convert ?D ((50, 50), ''RGBA'', None) ''RGBA'' = Inr overlay0 \<and>
      img_size ?D overlay0 = (50, 50) \<and>
      img_resize ?D overlay0 (100, 100) LANCZOS = Inr overlay \<and>
      img_size ?D overlay = (100, 100) \<and>
      img_size ?D out_img = (100, 100) \<and>
      img_mode ?D out_img = ''RGB''"
    by blast
  with demo_combine_image ob oo show ?thesis by blast
qed

text \<open>
  Claim C9. A call of \<open>combine_image\<close> that returns \<open>True\<close> on a base image whose
  \<open>info\<close> holds an EXIF block (a non-empty byte string, as the decoder stores it) has
  passed exactly that byte string to \<open>save\<close> as \<open>exif\<close>. When the base has no EXIF
  entry and every other stage succeeds, saving without the \<open>exif\<close> argument, the call
  returns \<open>True\<close> all the same.
\<close>

theorem exif_block_reaches_the_output:
  "(combine_image env (Some base_path) overlay_path output_path quality (w, log)
        = (Inr True, (w', log')) \<longrightarrow>
    Image_open env w base_path = Inr base_img \<longrightarrow>
    img_info_get_exif env base_img = Inr (Some block) \<longrightarrow> block \<noteq> [] \<longrightarrow>
    (\<exists>out_img. img_save_jpeg env w out_img output_path quality (Some block) = (Inr (), w') \<and>
       log' = log @ [EOpen base_path, EOpen overlay_path,
                     ESave out_img output_path quality (Some block)]))
   \<and>
   (Image_open env w base_path = Inr base_img \<longrightarrow>
    img_info_get_exif env base_img = Inr None \<longrightarrow>
    img_convert env base_img ''RGB'' = Inr base \<longrightarrow>
    Image_open env w overlay_path = Inr overlay_img \<longrightarrow>
    img_convert env overlay_img ''RGBA'' = Inr overlay0 \<longrightarrow>
    (if img_size env overlay0 \<noteq> img_size env base
     then img_resize env overlay0 (img_size env base) LANCZOS = Inr overlay
     else overlay = overlay0) \<longrightarrow>
    img_paste env base overlay (0, 0) overlay = Inr pasted \<longrightarrow>
    img_save_jpeg env w pasted output_path quality None = (Inr (), w'') \<longrightarrow>
    combine_image env (Some base_path) overlay_path output_path quality (w, log)
      = (Inr True, (w'', log @ [EOpen base_path, EOpen overlay_path,
                                ESave pasted output_path quality None])))"
proof (intro conjI impI)
  assume run: "combine_image env (Some base_path) overlay_path output_path quality (w, log)
        = (Inr True, (w', log'))"
    and ob: "Image_open env w base_path = Inr base_img"
    and ex: "img_info_get_exif env base_img = Inr (Some block)"
    and ne: "block \<noteq> []"
  from ex ne have arg: "exif_argument env base_img = Some block"
    by (simp add: exif_argument_def truthy_bytes_def)
  from combine_image_success[OF run] ob obtain out_img where
    "img_save_jpeg env w out_img output_path quality (exif_argument env base_img) = (Inr (), w')"
    "log' = log @ [EOpen base_path, EOpen overlay_path,
                   ESave out_img output_path quality (exif_argument env base_img)]"
    by auto
  with arg show "\<exists>out_img. img_save_jpeg env w out_img output_path quality (Some block) = (Inr (), w') \<and>
       log' = log @ [EOpen base_path, EOpen overlay_path,
                     ESave out_img output_path quality (Some block)]"
    by auto
next
  assume ob: "Image_open env w base_path = Inr base_img"
    and ex: "img_info_get_exif env base_img = Inr None"
    and cb: "img_convert env base_img ''RGB'' = Inr base"
    and oo: "Image_open env w overlay_path = Inr overlay_img"
    and co: "img_convert env overlay_img ''RGBA'' = Inr overlay0"
    and rs: "if img_size env overlay0 \<noteq> img_size env base
     then img_resize env overlay0 (img_size env base) LANCZOS = Inr overlay
     else overlay = overlay0"
    and ps: "img_paste env base overlay (0, 0) overlay = Inr pasted"
    and sv: "img_save_jpeg env w pasted output_path quality None = (Inr (), w'')"
  from ex have arg: "exif_argument env base_img = None"
    by (simp add: exif_argument_def truthy_bytes_def)
  from combine_image_succeeds[OF ob cb oo co rs ps, of output_path quality w'' log] sv arg
  show "combine_image env (Some base_path) overlay_path output_path quality (w, log)
      = (Inr True, (w'', log @ [EOpen base_path, EOpen overlay_path,
                                ESave pasted output_path quality None]))"
    by simp
qed

lemma demo_combine_image_noexif:
  "combine_image (demo_env demo_tree) (Some ''m/noexif-main.jpg'') ''m/a-overlay.png''
     ''out/m_combined.jpg'' 95 ([], [])
   = (Inr True, ([''out/m_combined.jpg''],
        [EOpen ''m/noexif-main.jpg'', EOpen ''m/a-overlay.png'',
         ESave ((100, 100), ''RGB'', None) ''out/m_combined.jpg'' 95 None]))"
  by code_simp

theorem exif_block_reaches_the_output_witness:
  "Image_open (demo_env demo_tree) [] ''m/a-main.jpg''
     = Inr ((100, 100), ''RGB'', Some [0x45, 0x78, 0x69, 0x66]) \<and>
   img_info_get_exif (demo_env demo_tree) ((100, 100), ''RGB'', Some [0x45, 0x78, 0x69, 0x66])
     = Inr (Some [0x45, 0x78, 0x69, 0x66]) \<and>
   combine_image (demo_env demo_tree) (Some ''m/a-main.jpg'') ''m/a-overlay.png''
     ''out/m_combined.jpg'' 95 ([], [])
   = (Inr True, ([''out/m_combined.jpg''],
        [EOpen ''m/a-main.jpg'', EOpen ''m/a-overlay.png'',
         ESave ((100, 100), ''RGB'', Some [0x45, 0x78, 0x69, 0x66]) ''out/m_combined.jpg'' 95
           (Some [0x45, 0x78, 0x69, 0x66])])) \<and>
   Image_open (demo_env demo_tree) [] ''m/noexif-main.jpg'' = Inr ((100, 100), ''RGB'', None) \<and>
   img_info_get_exif (demo_env demo_tree) ((100, 100), ''RGB'', None) = Inr None \<and>
   combine_image (demo_env demo_tree) (Some ''m/noexif-main.jpg'') ''m/a-overlay.png''
     ''out/m_combined.jpg'' 95 ([], [])
   = (Inr True, ([''out/m_combined.jpg''],
        [EOpen ''m/noexif-main.jpg'', EOpen ''m/a-overlay.png'',
         ESave ((100, 100), ''RGB'', None) ''out/m_combined.jpg'' 95 None]))"
proof -
  let ?D = "demo_env demo_tree"
  let ?b = "((100, 100), ''RGB'', Some [0x45, 0x78, 0x69, 0x66]) :: demo_img"
  let ?n = "((100, 100), ''RGB'', None) :: demo_img"
  let ?o = "((50, 50), ''RGBA'', None) :: demo_img"
  have ob: "Image_open ?D [] ''m/a-main.jpg'' = Inr ?b" by code_simp
  have ex: "img_info_get_exif ?D ?b = Inr (Some [0x45, 0x78, 0x69, 0x66])" by code_simp
  have ne: "[0x45, 0x78, 0x69, 0x66] \<noteq> ([] :: bytes)" by simp
  have on: "Image_open ?D [] ''m/noexif-main.jpg'' = Inr ?n" by code_simp
  have en: "img_info_get_exif ?D ?n = Inr None" by code_simp
  have cb: "img_convert ?D ?n ''RGB'' = Inr ?n" by code_simp
  have oo: "Image_open ?D [] ''m/a-overlay.png'' = Inr ?o" by code_simp
  have co: "img_convert ?D ?o ''RGBA'' = Inr ?o" by code_simp
  have rs: "if img_size ?D ?o \<noteq> img_size ?D ?n
     then img_resize ?D ?o (img_size ?D ?n) LANCZOS = Inr ((100, 100), ''RGBA'', None)
     else ((100, 100), ''RGBA'', None) = ?o" by code_simp
  have ps: "img_paste ?D ?n ((100, 100), ''RGBA'', None) (0, 0) ((100, 100), ''RGBA'', None) = Inr ?n"
    by code_simp
  have sv: "img_save_jpeg ?D [] ?n ''out/m_combined.jpg'' 95 None = (Inr (), [''out/m_combined.jpg''])"
    by code_simp
  from exif_block_reaches_the_output[where env = "demo_env demo_tree",
      THEN conjunct1, rule_format, OF demo_combine_image ob ex ne]
  have first: "\<exists>out_img. img_save_jpeg ?D [] out_img ''out/m_combined.jpg'' 95
          (Some [0x45, 0x78, 0x69, 0x66]) = (Inr (), [''out/m_combined.jpg''])" by auto
  from exif_block_reaches_the_output[where env = "demo_env demo_tree" and log = "[]",
      THEN conjunct2, rule_format, OF on en cb oo co rs ps sv]
  have second: "combine_image ?D (Some ''m/noexif-main.jpg'') ''m/a-overlay.png''
     ''out/m_combined.jpg'' 95 ([], [])
   = (Inr True, ([''out/m_combined.jpg''],
        [EOpen ''m/noexif-main.jpg'', EOpen ''m/a-overlay.png'',
         ESave ?n ''out/m_combined.jpg'' 95 None]))"
    by simp
  from first ob ex demo_combine_image on en second show ?thesis by simp
qed

section \<open>The orchestrator\<close>

lemma first_overlay_apply:
  "first_overlay fi s =
     (case overlays fi of [] \<Rightarrow> (Inl (OtherException ''IndexError''), s) | ov # _ \<Rightarrow> (Inr ov, s))"
  by (simp add: first_overlay_def io_simps split: list.splits)

lemma first_overlay_logs: "logs_only P (first_overlay fi)"
  by (auto simp: first_overlay_def split: list.splits)

lemma first_overlay_world: "world_const (first_overlay fi)"
  by (auto simp: first_overlay_def split: list.splits)



lemma do_print_InrD:
  "do_print env m (w, log) = (Inr u, s') \<Longrightarrow> s' = (w, log @ [EPrint m]) \<and> py_print env w m = Inr ()"
  by (auto simp: do_print_apply)

subsection \<open>What the loop body logs\<close>

lemma image_branch_logs:
  assumes "is_image fi"
  shows "logs_only (folder_event out ff dry fi)
           (image_branch env out dry q c fi (folder_name fi @ ''_combined''))"
proof -
  have i: "logs_only (folder_event out f d fi)
             (combine_image env bp ov (os_path_join out (folder_name fi @ ''_combined.jpg'')) q)"
    for bp ov f d
    by (rule logs_only_mono[OF combine_image_logs]) (use assms in \<open>auto elim: saves_to.elims\<close>)
  show ?thesis
    unfolding image_branch_def Let_def
    by (auto intro!: logs_only_prim first_overlay_logs i)
qed

lemma video_branch_logs:
  assumes "\<not> is_image fi" "is_video fi"
  shows "logs_only (folder_event out ff dry fi)
           (video_branch env out dry ff c fi (folder_name fi @ ''_combined''))"
proof -
  have v: "logs_only (folder_event out f d fi) (combine_video env bp ov p)"
    if "f" "\<not> d" for bp ov p f d
    by (rule logs_only_mono[OF combine_video_logs])
       (use assms that in \<open>auto elim: is_run.elims is_print.elims\<close>)
  show ?thesis
    unfolding video_branch_def Let_def
    by (auto intro!: logs_only_prim first_overlay_logs v)
qed

lemma process_folder_logs:
  "logs_only (folder_event out ff dry fi) (process_folder env out dry q ff n idx c fi)"
  unfolding process_folder_def Let_def
  by (auto intro!: logs_only_prim image_branch_logs video_branch_logs)

lemma process_folders_logs:
  "logs_only (\<lambda>e. \<exists>fi\<in>set items. folder_event out ff dry fi e)
     (process_folders env out dry q ff n idx c items)"
proof (induction items arbitrary: c idx)
  case Nil
  show ?case by auto
next
  case (Cons fi rest)
  show ?case
    unfolding process_folders.simps
    by (intro logs_only_bind logs_only_mono[OF process_folder_logs]
          logs_only_mono[OF Cons.IH]) auto
qed

text \<open>In a preview the loop only prints.\<close>

lemma process_folder_dry_logs:
  "logs_only is_print (process_folder env out True q ff n idx c fi)"
  unfolding process_folder_def image_branch_def video_branch_def Let_def
  by (auto intro!: logs_only_prim)

lemma process_folder_dry_world:
  "world_const (process_folder env out True q ff n idx c fi)"
  unfolding process_folder_def image_branch_def video_branch_def Let_def
  by auto

lemma process_folders_dry_logs:
  "logs_only is_print (process_folders env out True q ff n idx c items)"
  by (induction items arbitrary: c idx) (auto intro!: process_folder_dry_logs)

lemma process_folders_dry_world:
  "world_const (process_folders env out True q ff n idx c items)"
  by (induction items arbitrary: c idx) (auto intro!: process_folder_dry_world)

subsection \<open>The counters after one folder\<close>

lemma image_branch_result:
  assumes "image_branch env out dry q c fi name s = (Inr c', s')"
  shows "(dry \<longrightarrow> c' = c) \<and>
         (\<not> dry \<longrightarrow> c' = c\<lparr>processed_images := processed_images c + 1\<rparr> \<or>
                     c' = c\<lparr>errors := errors c + 1\<rparr>)"
  using assms
  by (auto simp: image_branch_def Let_def io_return_apply dest!: io_bind_InrD split: if_splits)

lemma combine_video_returns:
  assumes "combine_video env bp ov out (w, log) = (Inr b, s')"
  shows "b \<longleftrightarrow> (\<exists>bv. bp = Some bv \<and> fst (subprocess_run env w (ffmpeg_cmd bv ov out)) = Inr ())"
proof (cases bp)
  case None
  with assms show ?thesis
    by (cases "py_print env w (Line 135 [PExn (OtherException ''TypeError'')])")
       (auto simp: combine_video_apply)
next
  case (Some bv)
  obtain r1 w1 where run: "subprocess_run env w (ffmpeg_cmd bv ov out) = (r1, w1)"
    by (metis surj_pair)
  show ?thesis
  proof (cases r1)
    case (Inr u)
    with assms Some run show ?thesis by (simp add: combine_video_apply)
  next
    case (Inl e0)
    show ?thesis
    proof (cases e0)
      case (CalledProcessError err)
      with assms Some run Inl show ?thesis
        by (cases "py_print env w1 (Line 132 [PStr err])") (auto simp: combine_video_apply)
    next
      case FileNotFoundError
      with assms Some run Inl show ?thesis
        by (cases "py_print env w1 (Line 135 [PExn FileNotFoundError])")
           (auto simp: combine_video_apply)
    next
      case (OtherException msg)
      with assms Some run Inl show ?thesis
        by (cases "py_print env w1 (Line 135 [PExn (OtherException msg)])")
           (auto simp: combine_video_apply)
    qed
  qed
qed

lemma combine_video_runs:
  assumes "combine_video env bp ov out (w, log) = (r, (w', log'))"
  shows "filter is_run log' = filter is_run log @
           map ERun (case bp of None \<Rightarrow> [] | Some b \<Rightarrow> [ffmpeg_cmd b ov out])"
proof (cases bp)
  case None
  with assms show ?thesis by (auto simp: combine_video_apply)
next
  case (Some bv)
  obtain r1 w1 where run: "subprocess_run env w (ffmpeg_cmd bv ov out) = (r1, w1)"
    by (metis surj_pair)
  show ?thesis
  proof (cases r1)
    case (Inr u)
    with assms Some run show ?thesis by (auto simp: combine_video_apply)
  next
    case (Inl e0)
    with assms Some run show ?thesis
      by (cases e0) (auto simp: combine_video_apply)
  qed
qed

lemma video_branch_result:
  assumes "video_branch env out dry ff c fi name (w, log) = (Inr c', s')"
  shows "(\<not> ff \<longrightarrow> c' = c\<lparr>skipped_videos := skipped_videos c + 1\<rparr>) \<and>
         (ff \<longrightarrow> dry \<longrightarrow> c' = c) \<and>
         (ff \<longrightarrow> \<not> dry \<longrightarrow>
            c' = (if \<exists>ov ovs bv. overlays fi = ov # ovs \<and> base_video fi = Some bv \<and>
                       fst (subprocess_run env w
                              (ffmpeg_cmd bv ov (os_path_join out (name @ ''.mp4'')))) = Inr ()
                  then c\<lparr>processed_videos := processed_videos c + 1\<rparr>
                  else c\<lparr>errors := errors c + 1\<rparr>))"
proof (intro conjI impI)
  assume "\<not> ff"
  with assms show "c' = c\<lparr>skipped_videos := skipped_videos c + 1\<rparr>"
    by (auto simp: video_branch_def io_return_apply dest!: io_bind_InrD)
next
  assume "ff" "dry"
  with assms show "c' = c"
    by (auto simp: video_branch_def Let_def io_return_apply dest!: io_bind_InrD)
next
  assume ff: "ff" and dry: "\<not> dry"
  let ?p = "os_path_join out (name @ ''.mp4'')"
  let ?m = "Line 215 [PStr (name @ ''.mp4'')]"
  from assms ff dry have run:
    "io_bind (do_print env ?m) (\<lambda>_.
     io_bind (first_overlay fi) (\<lambda>ov.
     io_bind (combine_video env (base_video fi) ov ?p) (\<lambda>success.
       if success then
         io_bind (do_print env (Line 223 [])) (\<lambda>_.
         io_return (c\<lparr>processed_videos := processed_videos c + 1\<rparr>))
       else io_return (c\<lparr>errors := errors c + 1\<rparr>)))) (w, log) = (Inr c', s')"
    by (simp add: video_branch_def Let_def)
  from io_bind_InrD[OF run] obtain u s1 where
    p: "do_print env ?m (w, log) = (Inr u, s1)" and
    k1: "io_bind (first_overlay fi) (\<lambda>ov.
     io_bind (combine_video env (base_video fi) ov ?p) (\<lambda>success.
       if success then
         io_bind (do_print env (Line 223 [])) (\<lambda>_.
         io_return (c\<lparr>processed_videos := processed_videos c + 1\<rparr>))
       else io_return (c\<lparr>errors := errors c + 1\<rparr>))) s1 = (Inr c', s')"
    by blast
  from do_print_InrD[OF p] have s1: "s1 = (w, log @ [EPrint ?m])" by simp
  from io_bind_InrD[OF k1] obtain ov s2 where
    f: "first_overlay fi s1 = (Inr ov, s2)" and
    k2: "io_bind (combine_video env (base_video fi) ov ?p) (\<lambda>success.
       if success then
         io_bind (do_print env (Line 223 [])) (\<lambda>_.
         io_return (c\<lparr>processed_videos := processed_videos c + 1\<rparr>))
       else io_return (c\<lparr>errors := errors c + 1\<rparr>)) s2 = (Inr c', s')"
    by blast
  from f obtain ovs where ov: "overlays fi = ov # ovs" and s2: "s2 = s1"
    by (cases "overlays fi") (auto simp: first_overlay_apply)
  from io_bind_InrD[OF k2] obtain b s3 where
    v: "combine_video env (base_video fi) ov ?p s2 = (Inr b, s3)" and
    k3: "(if b then
         io_bind (do_print env (Line 223 [])) (\<lambda>_.
         io_return (c\<lparr>processed_videos := processed_videos c + 1\<rparr>))
       else io_return (c\<lparr>errors := errors c + 1\<rparr>)) s3 = (Inr c', s')"
    by blast
  from combine_video_returns[OF v[unfolded s2 s1]]
  have b: "b \<longleftrightarrow> (\<exists>bv. base_video fi = Some bv \<and>
                    fst (subprocess_run env w (ffmpeg_cmd bv ov ?p)) = Inr ())" .
  from k3 have c': "c' = (if b then c\<lparr>processed_videos := processed_videos c + 1\<rparr>
                          else c\<lparr>errors := errors c + 1\<rparr>)"
    by (auto simp: io_return_apply dest!: io_bind_InrD split: if_splits)
  from b ov have "b \<longleftrightarrow> (\<exists>ov ovs bv. overlays fi = ov # ovs \<and> base_video fi = Some bv \<and>
                       fst (subprocess_run env w (ffmpeg_cmd bv ov ?p)) = Inr ())"
    by auto
  with c' show "c' = (if \<exists>ov ovs bv. overlays fi = ov # ovs \<and> base_video fi = Some bv \<and>
                       fst (subprocess_run env w (ffmpeg_cmd bv ov ?p)) = Inr ()
                  then c\<lparr>processed_videos := processed_videos c + 1\<rparr>
                  else c\<lparr>errors := errors c + 1\<rparr>)"
    by simp
qed

lemma process_folder_branch:
  assumes "process_folder env out dry q ff n idx c fi (w, log) = (Inr c', s')"
  shows "\<exists>s2. (if is_image fi
               then image_branch env out dry q c fi (folder_name fi @ ''_combined'')
               else if is_video fi
               then video_branch env out dry ff c fi (folder_name fi @ ''_combined'')
               else io_return c)
              (w, log @ [EPrint (Line 178 [PNat idx, PNat n, PStr (folder_name fi)])])
            = (Inr c', s2)"
proof -
  let ?m = "Line 178 [PNat idx, PNat n, PStr (folder_name fi)]"
  let ?branch = "if is_image fi
               then image_branch env out dry q c fi (folder_name fi @ ''_combined'')
               else if is_video fi
               then video_branch env out dry ff c fi (folder_name fi @ ''_combined'')
               else io_return c"
  from assms have run:
    "io_bind (do_print env ?m) (\<lambda>_.
     io_bind ?branch (\<lambda>c'. io_bind (do_print env (Line 227 [])) (\<lambda>_. io_return c')))
       (w, log) = (Inr c', s')"
    by (simp add: process_folder_def Let_def)
  from io_bind_InrD[OF run] obtain u s1 where
    p: "do_print env ?m (w, log) = (Inr u, s1)" and
    k1: "io_bind ?branch (\<lambda>c'. io_bind (do_print env (Line 227 [])) (\<lambda>_. io_return c')) s1
           = (Inr c', s')"
    by blast
  from do_print_InrD[OF p] have s1: "s1 = (w, log @ [EPrint ?m])" by simp
  from io_bind_InrD[OF k1] obtain c1 s2 where
    b: "?branch s1 = (Inr c1, s2)" and
    k2: "io_bind (do_print env (Line 227 [])) (\<lambda>_. io_return c1) s2 = (Inr c', s')"
    by blast
  from k2 have "c' = c1"
    by (auto simp: io_return_apply dest!: io_bind_InrD)
  with b s1 show ?thesis by blast
qed

lemma process_folder_result:
  assumes "process_folder env out dry q ff n idx c fi (w, log) = (Inr c', s')"
  shows "(is_image fi \<longrightarrow> dry \<longrightarrow> c' = c) \<and>
         (is_image fi \<longrightarrow> \<not> dry \<longrightarrow>
            c' = c\<lparr>processed_images := processed_images c + 1\<rparr> \<or>
            c' = c\<lparr>errors := errors c + 1\<rparr>) \<and>
         (\<not> is_image fi \<longrightarrow> is_video fi \<longrightarrow> \<not> ff \<longrightarrow>
            c' = c\<lparr>skipped_videos := skipped_videos c + 1\<rparr>) \<and>
         (\<not> is_image fi \<longrightarrow> is_video fi \<longrightarrow> ff \<longrightarrow> dry \<longrightarrow> c' = c) \<and>
         (\<not> is_image fi \<longrightarrow> is_video fi \<longrightarrow> ff \<longrightarrow> \<not> dry \<longrightarrow>
            c' = (if \<exists>ov ovs bv. overlays fi = ov # ovs \<and> base_video fi = Some bv \<and>
                       fst (subprocess_run env w
                              (ffmpeg_cmd bv ov
                                 (os_path_join out
                                    ((folder_name fi @ ''_combined'') @ ''.mp4'')))) = Inr ()
                  then c\<lparr>processed_videos := processed_videos c + 1\<rparr>
                  else c\<lparr>errors := errors c + 1\<rparr>)) \<and>
         (\<not> is_image fi \<longrightarrow> \<not> is_video fi \<longrightarrow> c' = c)"
proof -
  from process_folder_branch[OF assms] obtain s2 where
    b: "(if is_image fi
               then image_branch env out dry q c fi (folder_name fi @ ''_combined'')
               else if is_video fi
               then video_branch env out dry ff c fi (folder_name fi @ ''_combined'')
               else io_return c)
              (w, log @ [EPrint (Line 178 [PNat idx, PNat n, PStr (folder_name fi)])])
            = (Inr c', s2)"
    by blast
  consider (img) "is_image fi" | (vid) "\<not> is_image fi" "is_video fi"
    | (none) "\<not> is_image fi" "\<not> is_video fi"
    by blast
  then show ?thesis
  proof cases
    case img
    with b have "image_branch env out dry q c fi (folder_name fi @ ''_combined'')
              (w, log @ [EPrint (Line 178 [PNat idx, PNat n, PStr (folder_name fi)])])
            = (Inr c', s2)" by simp
    from image_branch_result[OF this] img show ?thesis by blast
  next
    case vid
    with b have "video_branch env out dry ff c fi (folder_name fi @ ''_combined'')
              (w, log @ [EPrint (Line 178 [PNat idx, PNat n, PStr (folder_name fi)])])
            = (Inr c', s2)" by simp
    from video_branch_result[OF this] vid show ?thesis by blast
  next
    case none
    with b show ?thesis by (simp add: io_return_apply)
  qed
qed

lemma process_folder_counts:
  assumes "process_folder env out dry q ff n idx c fi (w, log) = (Inr c', s')"
  shows "skipped_videos c' =
           skipped_videos c + (if \<not> ff \<and> is_video fi \<and> \<not> is_image fi then 1 else 0)"
    and "\<not> dry \<Longrightarrow> total c' = total c + (if is_image fi \<or> is_video fi then 1 else 0)"
proof -
  note r = process_folder_result[OF assms]
  consider (img_dry) "is_image fi" "dry"
    | (img) "is_image fi" "\<not> dry"
    | (skip) "\<not> is_image fi" "is_video fi" "\<not> ff"
    | (vid_dry) "\<not> is_image fi" "is_video fi" "ff" "dry"
    | (vid) "\<not> is_image fi" "is_video fi" "ff" "\<not> dry"
    | (none) "\<not> is_image fi" "\<not> is_video fi"
    by blast
  then have "skipped_videos c' =
           skipped_videos c + (if \<not> ff \<and> is_video fi \<and> \<not> is_image fi then 1 else 0) \<and>
        (\<not> dry \<longrightarrow> total c' = total c + (if is_image fi \<or> is_video fi then 1 else 0))"
  proof cases
    case img_dry
    with r show ?thesis by simp
  next
    case img
    with r have "c' = c\<lparr>processed_images := processed_images c + 1\<rparr> \<or>
                 c' = c\<lparr>errors := errors c + 1\<rparr>" by blast
    with img show ?thesis by (auto simp: total_def)
  next
    case skip
    with r have "c' = c\<lparr>skipped_videos := skipped_videos c + 1\<rparr>" by blast
    with skip show ?thesis by (auto simp: total_def)
  next
    case vid_dry
    with r show ?thesis by simp
  next
    case vid
    with r obtain P where "c' = (if P then c\<lparr>processed_videos := processed_videos c + 1\<rparr>
                 else c\<lparr>errors := errors c + 1\<rparr>)"
      by blast
    then have "c' = c\<lparr>processed_videos := processed_videos c + 1\<rparr> \<or>
                 c' = c\<lparr>errors := errors c + 1\<rparr>"
      by (cases P) simp_all
    with vid show ?thesis by (auto simp: total_def)
  next
    case none
    with r show ?thesis by simp
  qed
  then show "skipped_videos c' =
           skipped_videos c + (if \<not> ff \<and> is_video fi \<and> \<not> is_image fi then 1 else 0)"
    and "\<not> dry \<Longrightarrow> total c' = total c + (if is_image fi \<or> is_video fi then 1 else 0)"
    by blast+
qed

lemma process_folders_counts:
  "process_folders env out dry q ff n idx c items (w, log) = (Inr c', s') \<Longrightarrow>
   skipped_videos c' =
     skipped_videos c + length (filter (\<lambda>fi. \<not> ff \<and> is_video fi \<and> \<not> is_image fi) items) \<and>
   (\<not> dry \<longrightarrow> total c' = total c + length (filter (\<lambda>fi. is_image fi \<or> is_video fi) items))"
proof (induction items arbitrary: c idx w log)
  case Nil
  then show ?case by (simp add: io_simps)
next
  case (Cons fi rest)
  from Cons.prems obtain c1 w1 l1 where
    step: "process_folder env out dry q ff n idx c fi (w, log) = (Inr c1, (w1, l1))" and
    rest: "process_folders env out dry q ff n (Suc idx) c1 rest (w1, l1) = (Inr c', s')"
    by (auto dest!: io_bind_InrD)
  from Cons.IH[OF rest] process_folder_counts[OF step] show ?case by auto
qed



subsection \<open>The runs of the video tool\<close>

lemma logs_no_runs:
  assumes "log' = log @ evs" and "\<forall>e\<in>set evs. \<not> is_run e"
  shows "filter is_run log' = filter is_run log"
  using assms by (simp add: filter_empty_conv)

lemma video_branch_runs:
  assumes run: "video_branch env out False True c fi name (w, log) = (r, (w', log'))"
  shows "\<exists>runs. filter is_run log' = filter is_run log @ map ERun runs \<and>
           prefix runs (case (overlays fi, base_video fi) of
                          (ov # _, Some b) \<Rightarrow> [ffmpeg_cmd b ov (os_path_join out (name @ ''.mp4''))]
                        | _ \<Rightarrow> []) \<and>
           ((\<exists>c'. r = Inr c') \<longrightarrow>
              runs = (case (overlays fi, base_video fi) of
                        (ov # _, Some b) \<Rightarrow> [ffmpeg_cmd b ov (os_path_join out (name @ ''.mp4''))]
                      | _ \<Rightarrow> []))"
proof -
  let ?p = "os_path_join out (name @ ''.mp4'')"
  let ?m = "Line 215 [PStr (name @ ''.mp4'')]"
  let ?E = "case (overlays fi, base_video fi) of
              (ov # _, Some b) \<Rightarrow> [ffmpeg_cmd b ov ?p] | _ \<Rightarrow> []"
  let ?tail = "\<lambda>success. if success then
         io_bind (do_print env (Line 223 [])) (\<lambda>_.
         io_return (c\<lparr>processed_videos := processed_videos c + 1\<rparr>))
       else io_return (c\<lparr>errors := errors c + 1\<rparr>)"
  from run have run':
    "io_bind (do_print env ?m) (\<lambda>_.
     io_bind (first_overlay fi) (\<lambda>ov.
     io_bind (combine_video env (base_video fi) ov ?p) ?tail)) (w, log) = (r, (w', log'))"
    by (simp add: video_branch_def Let_def)
  have none: ?thesis if "filter is_run log' = filter is_run log" "\<forall>c'. r \<noteq> Inr c'"
    using that by (intro exI[of _ "[]"]) simp
  from run' show ?thesis
  proof (cases rule: io_bind_cases)
    case (raised e)
    then have "log' = log @ [EPrint ?m]" by (auto simp: do_print_apply)
    with raised(2) show ?thesis by (intro none) auto
  next
    case (returned u s1)
    from do_print_InrD[OF returned(1)] have s1: "s1 = (w, log @ [EPrint ?m])" by simp
    show ?thesis
    proof (cases "overlays fi")
      case Nil
      with returned(2) s1 have "r = Inl (OtherException ''IndexError'')" "log' = log @ [EPrint ?m]"
        by (simp_all add: io_bind_apply first_overlay_apply)
      then show ?thesis by (intro none) auto
    next
      case (Cons ov ovs)
      with returned(2) s1 have k:
        "io_bind (combine_video env (base_video fi) ov ?p) ?tail (w, log @ [EPrint ?m])
           = (r, (w', log'))"
        by (simp add: io_bind_apply first_overlay_apply)
      let ?R = "case base_video fi of None \<Rightarrow> [] | Some b \<Rightarrow> [ffmpeg_cmd b ov ?p]"
      have E: "?E = ?R" using Cons by (simp split: option.splits)
      have "filter is_run log' = filter is_run log @ map ERun ?R"
        using k
      proof (cases rule: io_bind_cases)
        case (raised e)
        from combine_video_runs[OF raised(1)] show ?thesis by simp
      next
        case (returned b s2)
        obtain w2 l2 where s2: "s2 = (w2, l2)" by (cases s2)
        from combine_video_runs[OF returned(1)[unfolded s2]]
        have l2: "filter is_run l2 = filter is_run log @ map ERun ?R" by simp
        have "logs_only is_print (?tail b)"
          by (auto intro!: logs_only_prim)
        from no_runs_appended[OF this is_print_not_run returned(2)[unfolded s2]] l2
        show ?thesis by simp
      qed
      with E show ?thesis by (intro exI[of _ ?R]) simp
    qed
  qed
qed

lemma process_folder_runs:
  assumes run: "process_folder env out dry q ff n idx c fi (w, log) = (r, (w', log'))"
  shows "\<exists>runs. filter is_run log' = filter is_run log @ map ERun runs \<and>
           prefix runs (expected_runs out dry ff fi) \<and>
           ((\<exists>c'. r = Inr c') \<longrightarrow> runs = expected_runs out dry ff fi)"
proof (cases "\<not> is_image fi \<and> is_video fi \<and> ff \<and> \<not> dry")
  case False
  then have E: "expected_runs out dry ff fi = []" by (auto simp: expected_runs_def)
  from logs_onlyD[OF process_folder_logs run] obtain evs where
    evs: "log' = log @ evs" "\<forall>e\<in>set evs. folder_event out ff dry fi e" by blast
  have "\<not> is_run e" if "e \<in> set evs" for e
    using evs(2) that False by (cases e) auto
  with evs(1) have "filter is_run log' = filter is_run log"
    by (simp add: filter_empty_conv)
  with E show ?thesis by (intro exI[of _ "[]"]) simp
next
  case True
  let ?m = "Line 178 [PNat idx, PNat n, PStr (folder_name fi)]"
  let ?E = "expected_runs out dry ff fi"
  have E: "?E = (case (overlays fi, base_video fi) of
                   (ov # _, Some b) \<Rightarrow>
                     [ffmpeg_cmd b ov (os_path_join out ((folder_name fi @ ''_combined'') @ ''.mp4''))]
                 | _ \<Rightarrow> [])"
    using True by (simp add: expected_runs_def split: list.splits option.splits)
  from run True have run':
    "io_bind (do_print env ?m) (\<lambda>_.
     io_bind (video_branch env out False True c fi (folder_name fi @ ''_combined''))
       (\<lambda>c'. io_bind (do_print env (Line 227 [])) (\<lambda>_. io_return c'))) (w, log)
       = (r, (w', log'))"
    by (simp add: process_folder_def Let_def)
  have none: ?thesis if "filter is_run log' = filter is_run log" "\<forall>c'. r \<noteq> Inr c'"
    using that by (intro exI[of _ "[]"]) simp
  from run' show ?thesis
  proof (cases rule: io_bind_cases)
    case (raised e)
    then have "log' = log @ [EPrint ?m]" by (auto simp: do_print_apply)
    with raised(2) show ?thesis by (intro none) auto
  next
    case (returned u s1)
    from do_print_InrD[OF returned(1)] have s1: "s1 = (w, log @ [EPrint ?m])" by simp
    from returned(2) show ?thesis
    proof (cases rule: io_bind_cases)
      case (raised e)
      from video_branch_runs[OF raised(1)[unfolded s1]] raised(2) E show ?thesis
        by auto
    next
      case (returned c1 s2)
      obtain w2 l2 where s2: "s2 = (w2, l2)" by (cases s2)
      from video_branch_runs[OF returned(1)[unfolded s1 s2]] E
      have l2: "filter is_run l2 = filter is_run log @ map ERun ?E"
        by auto
      have "logs_only is_print (io_bind (do_print env (Line 227 [])) (\<lambda>_. io_return c1))"
        by (auto intro!: logs_only_prim)
      from no_runs_appended[OF this is_print_not_run returned(2)[unfolded s2]] l2
      have "filter is_run log' = filter is_run log @ map ERun ?E" by simp
      then show ?thesis by (intro exI[of _ ?E]) simp
    qed
  qed
qed

lemma process_folders_runs:
  assumes "process_folders env out dry q ff n idx c items (w, log) = (r, (w', log'))"
  shows "\<exists>runs. filter is_run log' = filter is_run log @ map ERun runs \<and>
           prefix runs (concat (map (expected_runs out dry ff) items)) \<and>
           ((\<exists>c'. r = Inr c') \<longrightarrow> runs = concat (map (expected_runs out dry ff) items))"
  using assms
proof (induction items arbitrary: c idx w log)
  case Nil
  then show ?case by (intro exI[of _ "[]"]) (simp add: io_simps)
next
  case (Cons fi rest)
  let ?E1 = "expected_runs out dry ff fi"
  let ?E2 = "concat (map (expected_runs out dry ff) rest)"
  from Cons.prems have run:
    "io_bind (process_folder env out dry q ff n idx c fi) (\<lambda>c'.
       process_folders env out dry q ff n (Suc idx) c' rest) (w, log) = (r, (w', log'))"
    by simp
  from run show ?case
  proof (cases rule: io_bind_cases)
    case (raised e)
    from process_folder_runs[OF raised(1)] obtain runs where
      "filter is_run log' = filter is_run log @ map ERun runs" "prefix runs ?E1" by blast
    with raised(2) show ?thesis
      by (intro exI[of _ runs]) (auto intro: prefix_prefix)
  next
    case (returned c1 s1)
    obtain w1 l1 where s1: "s1 = (w1, l1)" by (cases s1)
    from process_folder_runs[OF returned(1)[unfolded s1]]
    have l1: "filter is_run l1 = filter is_run log @ map ERun ?E1" by auto
    from Cons.IH[OF returned(2)[unfolded s1]] obtain runs2 where
      r2: "filter is_run log' = filter is_run l1 @ map ERun runs2" "prefix runs2 ?E2"
          "(\<exists>c'. r = Inr c') \<longrightarrow> runs2 = ?E2"
      by blast
    from l1 r2 show ?thesis
      by (intro exI[of _ "?E1 @ runs2"]) auto
  qed
qed

subsection \<open>The loop returns when the console accepts every message\<close>



subsection \<open>The stages of a run\<close>

lemma io_bind_assoc: "io_bind (io_bind m f) g = io_bind m (\<lambda>x. io_bind (f x) g)"
  by (rule ext) (simp add: io_bind_def split: prod.splits sum.splits)


lemma process_all_memories_after_find:
  assumes "find_overlay_folders env src s = (Inr items, s0)"
  shows "process_all_memories env src out dry q ff s =
     (if items = [] then io_bind (do_print env (Line 147 [])) (\<lambda>_. io_return None)
      else io_bind (before_loop env out dry ff items) (\<lambda>_.
           io_bind (process_folders env out dry q ff (length items) 1 zero_counters items)
             (\<lambda>c.
           io_bind (do_prints env (summary_messages dry ff (length (filter is_image items))
                      (length (filter is_video items)) c out)) (\<lambda>_.
           io_return (Some (report_of dry ff items c)))))) s0"
proof -
  have "process_all_memories env src out dry q ff s =
     (if items = [] then
         io_bind (do_print env (Line 147 [])) (\<lambda>_.
         io_return None)
       else
         (let image_count = length (filter is_image items);
              video_count = length (filter is_video items)
          in io_bind (do_prints env
                        ([Line 154 [PNat (length items)],
                          Line 155 [PNat image_count],
                          Line 156 [PNat video_count]]
                         @ (if video_count > 0 \<and> \<not> ff
                            then [Line 159 [], Line 160 [], Line 161 []] else [])
                         @ [Line 163 [], Line 164 []])) (\<lambda>_.
             io_bind (if \<not> dry then do_makedirs env out else io_return ()) (\<lambda>_.
             io_bind (process_folders env out dry q ff
                        (length items) 1 zero_counters items) (\<lambda>c.
             io_bind (do_prints env
                        (summary_messages dry ff image_count video_count c out)) (\<lambda>_.
             io_return (Some \<lparr> found_images = image_count,
                                found_videos = video_count,
                                final = c,
                                summary = summary_lines dry ff
                                            image_count video_count c \<rparr>))))))) s0"
    unfolding process_all_memories_def
    by (subst io_bind_apply) (simp only: assms prod.case sum.case)
  also have "\<dots> = (if items = [] then io_bind (do_print env (Line 147 [])) (\<lambda>_. io_return None)
      else io_bind (before_loop env out dry ff items) (\<lambda>_.
           io_bind (process_folders env out dry q ff (length items) 1 zero_counters items)
             (\<lambda>c.
           io_bind (do_prints env (summary_messages dry ff (length (filter is_image items))
                      (length (filter is_video items)) c out)) (\<lambda>_.
           io_return (Some (report_of dry ff items c)))))) s0"
    unfolding before_loop_def report_of_def Let_def io_bind_assoc ..
  finally show ?thesis .
qed

lemma find_overlay_folders_state:
  assumes "find_overlay_folders env src (w, log) = (r, (w0, l0))"
  shows "w0 = w \<and> (\<exists>evs. l0 = log @ evs \<and> (\<forall>e\<in>set evs. is_read e \<or> is_print e))"
  using world_constD[OF find_overlay_folders_world assms]
    logs_onlyD[OF find_overlay_folders_reads assms] by simp

lemma find_overlay_folders_overlays:
  assumes "find_overlay_folders env src (w, log) = (Inr items, s0)"
  shows "\<forall>fi\<in>set items. overlays fi \<noteq> []"
proof
  fix fi assume "fi \<in> set items"
  with find_overlay_folders_result[OF assms] obtain files where
    "overlay_files_of files \<noteq> []" "fi = make_folder_info (folder_name fi) (folder_path fi) files"
    unfolding discovered_def by blast
  then show "overlays fi \<noteq> []"
    by (metis make_folder_info_sel(3) map_is_Nil_conv)
qed

lemma before_loop_logs:
  "logs_only (\<lambda>e. is_print e \<or> (\<not> dry \<and> e = EMakedirs out)) (before_loop env out dry ff items)"
  unfolding before_loop_def
  by (auto intro!: logs_only_prim logs_only_prints)

lemma before_loop_dry_world: "world_const (before_loop env out True ff items)"
  unfolding before_loop_def by auto

text \<open>The stages of a run, when discovery found something.\<close>

lemma process_all_memories_stages:
  assumes find: "find_overlay_folders env src (w, log) = (Inr items, s0)"
    and ne: "items \<noteq> []"
    and run: "process_all_memories env src out dry q ff (w, log) = (x, (w', log'))"
  obtains (before) e where "x = Inl e" "before_loop env out dry ff items s0 = (Inl e, (w', log'))"
    | (loop) e s1 where "x = Inl e" "before_loop env out dry ff items s0 = (Inr (), s1)"
        "process_folders env out dry q ff (length items) 1 zero_counters items s1
           = (Inl e, (w', log'))"
    | (summary) e s1 c s2 where "x = Inl e" "before_loop env out dry ff items s0 = (Inr (), s1)"
        "process_folders env out dry q ff (length items) 1 zero_counters items s1 = (Inr c, s2)"
        "do_prints env (summary_messages dry ff (length (filter is_image items))
                          (length (filter is_video items)) c out) s2 = (Inl e, (w', log'))"
    | (report) s1 c s2 where "x = Inr (Some (report_of dry ff items c))"
        "before_loop env out dry ff items s0 = (Inr (), s1)"
        "process_folders env out dry q ff (length items) 1 zero_counters items s1 = (Inr c, s2)"
        "do_prints env (summary_messages dry ff (length (filter is_image items))
                          (length (filter is_video items)) c out) s2 = (Inr (), (w', log'))"
proof -
  let ?S = "\<lambda>c. do_prints env (summary_messages dry ff (length (filter is_image items))
                      (length (filter is_video items)) c out)"
  from run ne have k0:
    "io_bind (before_loop env out dry ff items) (\<lambda>_.
     io_bind (process_folders env out dry q ff (length items) 1 zero_counters items) (\<lambda>c.
     io_bind (?S c) (\<lambda>_. io_return (Some (report_of dry ff items c))))) s0 = (x, (w', log'))"
    by (simp add: process_all_memories_after_find[OF find])
  from k0 show ?thesis
  proof (cases rule: io_bind_cases)
    case (raised e)
    then show ?thesis by (intro before[of e]) simp_all
  next
    case r1: (returned u s1)
    from r1(2) show ?thesis
    proof (cases rule: io_bind_cases)
      case (raised e)
      with r1(1) show ?thesis by (intro loop[of e s1]) simp_all
    next
      case r2: (returned c s2)
      from r2(2) show ?thesis
      proof (cases rule: io_bind_cases)
        case (raised e)
        with r1(1) r2(1) show ?thesis by (intro summary[of e s1 c s2]) simp_all
      next
        case r3: (returned u' s3)
        then have "x = Inr (Some (report_of dry ff items c))" "s3 = (w', log')"
          by (simp_all add: io_return_apply)
        with r1(1) r2(1) r3(1) show ?thesis by (intro report[of c s1 s2]) simp_all
      qed
    qed
  qed
qed

text \<open>What a run logs after the log it started with.\<close>

lemma process_all_memories_events:
  assumes find: "find_overlay_folders env src (w, log) = (Inr items, s0)"
    and run: "process_all_memories env src out dry q ff (w, log) = (x, (w', log'))"
  shows "\<exists>evs. log' = log @ evs \<and>
           (\<forall>e\<in>set evs. is_read e \<or> is_print e \<or> (\<not> dry \<and> e = EMakedirs out) \<or>
                        (\<exists>fi\<in>set items. folder_event out ff dry fi e))"
proof -
  let ?Q = "\<lambda>e. is_read e \<or> is_print e \<or> (\<not> dry \<and> e = EMakedirs out) \<or>
                        (\<exists>fi\<in>set items. folder_event out ff dry fi e)"
  have rest: "logs_only ?Q
     (\<lambda>s. if items = [] then io_bind (do_print env (Line 147 [])) (\<lambda>_. io_return None) s
          else io_bind (before_loop env out dry ff items) (\<lambda>_.
               io_bind (process_folders env out dry q ff (length items) 1 zero_counters items)
                 (\<lambda>c.
               io_bind (do_prints env (summary_messages dry ff (length (filter is_image items))
                          (length (filter is_video items)) c out)) (\<lambda>_.
               io_return (Some (report_of dry ff items c))))) s)"
  proof (cases "items = []")
    case True
    then show ?thesis by (auto intro!: logs_only_prim)
  next
    case False
    have "logs_only ?Q (io_bind (before_loop env out dry ff items) (\<lambda>_.
               io_bind (process_folders env out dry q ff (length items) 1 zero_counters items)
                 (\<lambda>c.
               io_bind (do_prints env (summary_messages dry ff (length (filter is_image items))
                          (length (filter is_video items)) c out)) (\<lambda>_.
               io_return (Some (report_of dry ff items c))))))"
      by (intro logs_only_bind logs_only_return logs_only_prints
            logs_only_mono[OF before_loop_logs] logs_only_mono[OF process_folders_logs]) auto
    with False show ?thesis by (simp add: logs_only_def)
  qed
  obtain w0 l0 where s0: "s0 = (w0, l0)" by (cases s0)
  from find_overlay_folders_state[OF find[unfolded s0]] obtain evs0 where
    l0: "l0 = log @ evs0" and e0: "\<forall>e\<in>set evs0. is_read e \<or> is_print e" by blast
  from run s0 have
    "(\<lambda>s. if items = [] then io_bind (do_print env (Line 147 [])) (\<lambda>_. io_return None) s
          else io_bind (before_loop env out dry ff items) (\<lambda>_.
               io_bind (process_folders env out dry q ff (length items) 1 zero_counters items)
                 (\<lambda>c.
               io_bind (do_prints env (summary_messages dry ff (length (filter is_image items))
                          (length (filter is_video items)) c out)) (\<lambda>_.
               io_return (Some (report_of dry ff items c))))) s) (w0, l0) = (x, (w', log'))"
    by (simp add: process_all_memories_after_find[OF find] split: if_splits)
  from logs_onlyD[OF rest this] obtain evs1 where
    "log' = l0 @ evs1" "\<forall>e\<in>set evs1. ?Q e" by blast
  with l0 e0 show ?thesis
    by (intro exI[of _ "evs0 @ evs1"]) auto
qed

lemma process_all_memories_runs:
  assumes find: "find_overlay_folders env src (w, log) = (Inr items, s0)"
    and run: "process_all_memories env src out dry q ff (w, log) = (x, (w', log'))"
  shows "\<exists>runs. filter is_run log' = filter is_run log @ map ERun runs \<and>
           prefix runs (concat (map (expected_runs out dry ff) items)) \<and>
           ((\<exists>rep. x = Inr (Some rep)) \<longrightarrow>
              runs = concat (map (expected_runs out dry ff) items))"
proof -
  let ?E = "concat (map (expected_runs out dry ff) items)"
  obtain w0 l0 where s0: "s0 = (w0, l0)" by (cases s0)
  have f0: "filter is_run l0 = filter is_run log"
    by (rule no_runs_appended[OF find_overlay_folders_reads _ find[unfolded s0]])
       (auto dest: is_read_not_run is_print_not_run)
  have bl: "filter is_run l1 = filter is_run l0"
    if "before_loop env out dry ff items (w0, l0) = (r1, (w1, l1))" for r1 w1 l1
    by (rule no_runs_appended[OF before_loop_logs _ that]) (auto dest: is_print_not_run)
  have pr: "filter is_run l3 = filter is_run l2"
    if "do_prints env ms (w2, l2) = (r3, (w3, l3))" for ms r3 w2 l2 w3 l3
    by (rule no_runs_appended[OF logs_only_prints _ that, of is_print])
       (auto dest: is_print_not_run)
  have none: ?thesis if "filter is_run log' = filter is_run log" "\<forall>rep. x \<noteq> Inr (Some rep)"
    using that by (intro exI[of _ "[]"]) simp
  show ?thesis
  proof (cases "items = []")
    case True
    with run s0 have r: "io_bind (do_print env (Line 147 [])) (\<lambda>_. io_return None) (w0, l0)
        = (x, (w', log'))"
      by (simp add: process_all_memories_after_find[OF find])
    have "logs_only is_print (io_bind (do_print env (Line 147 [])) (\<lambda>_. io_return None))"
      by (auto intro!: logs_only_prim)
    from no_runs_appended[OF this is_print_not_run r] f0
    have "filter is_run log' = filter is_run log" by simp
    moreover from r have "\<forall>rep. x \<noteq> Inr (Some rep)"
      by (auto simp: print_return_apply map_sum_def split: sum.splits)
    ultimately show ?thesis by (rule none)
  next
    case False
    from find False run show ?thesis
    proof (cases rule: process_all_memories_stages)
      case (before e)
      from bl[OF before(2)[unfolded s0]] f0 before(1) show ?thesis
        by (intro none) auto
    next
      case (loop e s1)
      obtain w1 l1 where s1: "s1 = (w1, l1)" by (cases s1)
      from process_folders_runs[OF loop(3)[unfolded s1]] obtain runs where
        "filter is_run log' = filter is_run l1 @ map ERun runs" "prefix runs ?E" by blast
      with bl[OF loop(2)[unfolded s0 s1]] f0 loop(1) show ?thesis
        by (intro exI[of _ runs]) auto
    next
      case (summary e s1 c s2)
      obtain w1 l1 where s1: "s1 = (w1, l1)" by (cases s1)
      obtain w2 l2 where s2: "s2 = (w2, l2)" by (cases s2)
      from process_folders_runs[OF summary(3)[unfolded s1 s2]]
      have "filter is_run l2 = filter is_run l1 @ map ERun ?E" by auto
      with bl[OF summary(2)[unfolded s0 s1]] f0 pr[OF summary(4)[unfolded s2]] show ?thesis
        by (intro exI[of _ ?E]) auto
    next
      case (report s1 c s2)
      obtain w1 l1 where s1: "s1 = (w1, l1)" by (cases s1)
      obtain w2 l2 where s2: "s2 = (w2, l2)" by (cases s2)
      from process_folders_runs[OF report(3)[unfolded s1 s2]]
      have "filter is_run l2 = filter is_run l1 @ map ERun ?E" by auto
      with bl[OF report(2)[unfolded s0 s1]] f0 pr[OF report(4)[unfolded s2]] show ?thesis
        by (intro exI[of _ ?E]) auto
    qed
  qed
qed

lemma summary_lines_videos:
  "map_of (summary_lines dry ff ic vc c) ''Videos'' =
     Some (if dry then (if ff then vc else 0) else processed_videos c)"
  "map_of (summary_lines dry ff ic vc c) ''Skipped videos'' =
     (if skipped_videos c > 0 then Some (skipped_videos c) else None)"
  by (simp_all add: summary_lines_def)

lemma report_of_sel [simp]:
  "found_images (report_of dry ff items c) = length (filter is_image items)"
  "found_videos (report_of dry ff items c) = length (filter is_video items)"
  "final (report_of dry ff items c) = c"
  "summary (report_of dry ff items c) =
     summary_lines dry ff (length (filter is_image items)) (length (filter is_video items)) c"
  by (simp_all add: report_of_def)

lemma folder_event_not_run: "folder_event out False dry fi e \<Longrightarrow> \<not> is_run e"
  by (cases e) simp_all

text \<open>A run that returns a report has gone through every stage.\<close>

lemma process_all_memories_report:
  assumes find: "find_overlay_folders env src (w, log) = (Inr items, s0)"
    and run: "process_all_memories env src out dry q ff (w, log) = (Inr (Some rep), (w', log'))"
  shows "items \<noteq> [] \<and>
         (\<exists>s1 c s2. rep = report_of dry ff items c \<and>
            before_loop env out dry ff items s0 = (Inr (), s1) \<and>
            process_folders env out dry q ff (length items) 1 zero_counters items s1
              = (Inr c, s2))"
proof -
  have ne: "items \<noteq> []"
  proof
    assume "items = []"
    with run have "io_bind (do_print env (Line 147 [])) (\<lambda>_. io_return None) s0
        = (Inr (Some rep), (w', log'))"
      by (simp add: process_all_memories_after_find[OF find])
    then show False
      by (cases s0) (auto simp: print_return_apply map_sum_def split: sum.splits)
  qed
  from find ne run have "\<exists>s1 c s2. rep = report_of dry ff items c \<and>
            before_loop env out dry ff items s0 = (Inr (), s1) \<and>
            process_folders env out dry q ff (length items) 1 zero_counters items s1
              = (Inr c, s2)"
    by (cases rule: process_all_memories_stages) auto
  with ne show ?thesis by blast
qed


text \<open>
  Claim C8. With the video tool reported unavailable, in preview and in execute mode alike,
  the loop body does three things for a folder dispatched as a video (base video, no base
  image): it prints the folder's heading (line 178), the notice that the video is skipped
  (line 206) and an empty line (line 227), and when none of them raises it returns the
  counters with exactly one more skipped video; no file is read or written and no tool is
  run. Over a whole run, a report has the skipped-video counter at the number of such
  folders; and however the run ends, the video tool is never run and every image saved goes
  to the \<open>.jpg\<close> output of a folder dispatched as an image.
\<close>

theorem unavailable_video_tool_skips_every_video:
  "(\<not> is_image fi \<longrightarrow> is_video fi \<longrightarrow>
      process_folder env output_dir dry_run quality False n idx c fi
        = io_bind (do_prints env [Line 178 [PNat idx, PNat n, PStr (folder_name fi)],
                                  Line 206 [], Line 227 []])
            (\<lambda>_. io_return (c\<lparr>skipped_videos := skipped_videos c + 1\<rparr>)))
   \<and>
   (find_overlay_folders env source_dir (w, log) = (Inr items, s0) \<longrightarrow>
    process_all_memories env source_dir output_dir dry_run quality False (w, log)
      = (x, (w', log')) \<longrightarrow>
      (\<forall>rep. x = Inr (Some rep) \<longrightarrow>
         skipped_videos (final rep) = length (filter (\<lambda>fi. is_video fi \<and> \<not> is_image fi) items)) \<and>
      (\<exists>evs. log' = log @ evs \<and> (\<forall>e\<in>set evs. \<not> is_run e) \<and>
         (\<forall>im p q ex. ESave im p q ex \<in> set evs \<longrightarrow>
            (\<exists>fi\<in>set items. is_image fi \<and>
               p = os_path_join output_dir (folder_name fi @ ''_combined.jpg'')))))"
proof (intro conjI impI)
  assume "\<not> is_image fi" "is_video fi"
  then show "process_folder env output_dir dry_run quality False n idx c fi
        = io_bind (do_prints env [Line 178 [PNat idx, PNat n, PStr (folder_name fi)],
                                  Line 206 [], Line 227 []])
            (\<lambda>_. io_return (c\<lparr>skipped_videos := skipped_videos c + 1\<rparr>))"
    by (intro ext)
       (auto simp: process_folder_def video_branch_def io_bind_apply do_print_apply
          io_return_apply split: prod.splits sum.splits)
next
  assume find: "find_overlay_folders env source_dir (w, log) = (Inr items, s0)"
    and run: "process_all_memories env source_dir output_dir dry_run quality False (w, log)
      = (x, (w', log'))"
  show "\<forall>rep. x = Inr (Some rep) \<longrightarrow>
         skipped_videos (final rep) = length (filter (\<lambda>fi. is_video fi \<and> \<not> is_image fi) items)"
  proof (intro allI impI)
    fix rep assume x: "x = Inr (Some rep)"
    from process_all_memories_report[OF find run[unfolded x]] obtain s1 c' s2 where
      rep: "rep = report_of dry_run False items c'" and
      loop: "process_folders env output_dir dry_run quality False (length items) 1
               zero_counters items s1 = (Inr c', s2)"
      by blast
    obtain w1 l1 where s1: "s1 = (w1, l1)" by (cases s1)
    from process_folders_counts[OF loop[unfolded s1]]
    have "skipped_videos c' = length (filter (\<lambda>fi. is_video fi \<and> \<not> is_image fi) items)"
      by (simp add: zero_counters_def)
    with rep show "skipped_videos (final rep)
        = length (filter (\<lambda>fi. is_video fi \<and> \<not> is_image fi) items)"
      by simp
  qed
next
  assume find: "find_overlay_folders env source_dir (w, log) = (Inr items, s0)"
    and run: "process_all_memories env source_dir output_dir dry_run quality False (w, log)
      = (x, (w', log'))"
  from process_all_memories_events[OF find run] obtain evs where
    l: "log' = log @ evs" and
    evs: "\<forall>e\<in>set evs. is_read e \<or> is_print e \<or> (\<not> dry_run \<and> e = EMakedirs output_dir) \<or>
                        (\<exists>fi\<in>set items. folder_event output_dir False dry_run fi e)"
    by blast
  have nr: "\<not> is_run e" if "e \<in> set evs" for e
    using evs that by (auto dest: is_read_not_run is_print_not_run folder_event_not_run)
  have sv: "\<exists>fi\<in>set items. is_image fi \<and>
               p = os_path_join output_dir (folder_name fi @ ''_combined.jpg'')"
    if "ESave im p q ex \<in> set evs" for im p q ex
    using evs that by fastforce
  from l nr sv show "\<exists>evs. log' = log @ evs \<and> (\<forall>e\<in>set evs. \<not> is_run e) \<and>
         (\<forall>im p q ex. ESave im p q ex \<in> set evs \<longrightarrow>
            (\<exists>fi\<in>set items. is_image fi \<and>
               p = os_path_join output_dir (folder_name fi @ ''_combined.jpg'')))"
    by blast
qed

theorem unavailable_video_tool_skips_every_video_witness:
  "\<not> is_image demo_memory3 \<and> is_video demo_memory3 \<and>
   process_folder (demo_env demo_tree) OUTPUT_FOLDER False 95 False 2 2 zero_counters demo_memory3
       ([], [])
     = (Inr (zero_counters\<lparr>skipped_videos := skipped_videos zero_counters + 1\<rparr>),
        ([], [EPrint (Line 178 [PNat 2, PNat 2, PStr ''memory3'']),
              EPrint (Line 206 []), EPrint (Line 227 [])])) \<and>
   fst (find_overlay_folders (demo_env demo_tree) SOURCE_FOLDER ([], []))
     = Inr [demo_memory1, demo_memory3] \<and>
   (\<exists>rep w' log'.
      process_all_memories (demo_env demo_tree) SOURCE_FOLDER OUTPUT_FOLDER False 95 False ([], [])
        = (Inr (Some rep), (w', log')) \<and>
      skipped_videos (final rep) = 1 \<and>
      w' = [''snapchat_memories_combined'', ''snapchat_memories_combined/memory1_combined.jpg''] \<and>
      filter is_run log' = [])"
proof -
  let ?D = "demo_env demo_tree"
  have h1: "\<not> is_image demo_memory3" and h2: "is_video demo_memory3"
    by (simp_all add: demo_memory3_def)
  note step = unavailable_video_tool_skips_every_video[where env = ?D and fi = demo_memory3
      and c = zero_counters and dry_run = False and n = 2 and idx = 2
      and output_dir = OUTPUT_FOLDER and quality = 95,
      THEN conjunct1, rule_format, OF h1 h2]
  have ev: "io_bind (do_prints ?D [Line 178 [PNat 2, PNat 2, PStr (folder_name demo_memory3)],
                                  Line 206 [], Line 227 []])
            (\<lambda>_. io_return (zero_counters\<lparr>skipped_videos := skipped_videos zero_counters + 1\<rparr>))
            ([], [])
     = (Inr (zero_counters\<lparr>skipped_videos := skipped_videos zero_counters + 1\<rparr>),
        ([], [EPrint (Line 178 [PNat 2, PNat 2, PStr ''memory3'']),
              EPrint (Line 206 []), EPrint (Line 227 [])]))"
    by code_simp
  from step ev have item:
    "process_folder ?D OUTPUT_FOLDER False 95 False 2 2 zero_counters demo_memory3 ([], [])
     = (Inr (zero_counters\<lparr>skipped_videos := skipped_videos zero_counters + 1\<rparr>),
        ([], [EPrint (Line 178 [PNat 2, PNat 2, PStr ''memory3'']),
              EPrint (Line 206 []), EPrint (Line 227 [])]))"
    by simp
  obtain s0 where find: "find_overlay_folders ?D SOURCE_FOLDER ([], [])
      = (Inr [demo_memory1, demo_memory3], s0)"
  proof -
    have "fst (find_overlay_folders ?D SOURCE_FOLDER ([], [])) = Inr [demo_memory1, demo_memory3]"
      by code_simp
    then show ?thesis using that by (cases "find_overlay_folders ?D SOURCE_FOLDER ([], [])") auto
  qed
  obtain rep w' log' where run:
    "process_all_memories ?D SOURCE_FOLDER OUTPUT_FOLDER False 95 False ([], [])
        = (Inr (Some rep), (w', log'))"
    and w': "w' = [''snapchat_memories_combined'', ''snapchat_memories_combined/memory1_combined.jpg'']"
  proof -
    have "map_sum id (map_option (\<lambda>r. ())) (fst (process_all_memories ?D SOURCE_FOLDER OUTPUT_FOLDER False 95 False ([], [])))
            = Inr (Some ())"
      and "fst (snd (process_all_memories ?D SOURCE_FOLDER OUTPUT_FOLDER False 95 False ([], [])))
            = [''snapchat_memories_combined'', ''snapchat_memories_combined/memory1_combined.jpg'']"
      by code_simp+
    then show ?thesis using that
      by (cases "process_all_memories ?D SOURCE_FOLDER OUTPUT_FOLDER False 95 False ([], [])")
         (auto simp: map_sum_def split: sum.splits option.splits)
  qed
  have n: "length (filter (\<lambda>fi. is_video fi \<and> \<not> is_image fi) [demo_memory1, demo_memory3]) = 1"
    by (simp add: demo_memory1_def demo_memory3_def)
  from unavailable_video_tool_skips_every_video[where env = ?D,
      THEN conjunct2, rule_format, OF find run] n
  have "skipped_videos (final rep) = 1" and "filter is_run log' = []"
    by (auto simp: filter_empty_conv)
  with h1 h2 item find run w' show ?thesis by auto
qed






lemma make_folder_info_bases:
  "base_image (make_folder_info item p files) \<noteq> None \<longleftrightarrow> main_images_of files \<noteq> []"
  "base_video (make_folder_info item p files) \<noteq> None \<longleftrightarrow> main_videos_of files \<noteq> []"
  by (simp_all add: make_folder_info_def Let_def split: list.splits)

lemma process_folder_image_no_runs:
  assumes "is_image fi"
    and "process_folder env out dry q ff n idx c fi (w, log) = (r, (w', log'))"
  shows "filter is_run log' = filter is_run log"
proof -
  from assms(1) have "expected_runs out dry ff fi = []" by (simp add: expected_runs_def)
  with process_folder_runs[OF assms(2)] show ?thesis by auto
qed

text \<open>
  Claim C2. For the dictionary built from a folder's listing, the two flags say exactly
  whether a base image and a base video are present, and the specification's kind is
  Image exactly when a base image is present. A folder with both is handled by the image
  branch only: it is processed exactly as the same folder without its video; in execute
  mode, once the heading (line 178) and the announcement (line 191) are printed, its outcome
  is the outcome of \<open>combine_image\<close>, success being counted as a processed image after the
  confirmation of line 200 and failure as an error, before the empty line of line 227; and
  the video tool is not run for it.
\<close>

theorem image_takes_precedence_over_video:
  assumes fi: "fi = make_folder_info item item_path files"
  shows "(is_image fi \<longleftrightarrow> (\<exists>f\<in>set files. str_contains ''-main.jpg'' (lower f))) \<and>
         (is_video fi \<longleftrightarrow> (\<exists>f\<in>set files. str_contains ''-main.mp4'' (lower f))) \<and>
         (spec_kind fi = Image \<longleftrightarrow> is_image fi) \<and>
         (spec_kind fi = Video \<longleftrightarrow> is_video fi \<and> \<not> is_image fi) \<and>
         (is_image fi \<longrightarrow> is_video fi \<longrightarrow>
            spec_kind fi = Image \<and>
            process_folder env output_dir dry_run quality has_ffmpeg n idx c fi
              = process_folder env output_dir dry_run quality has_ffmpeg n idx c
                  (fi\<lparr>base_video := None, is_video := False\<rparr>) \<and>
            (\<forall>ov ovs w log b w1 l1. overlays fi = ov # ovs \<longrightarrow>
               py_print env w (Line 178 [PNat idx, PNat n, PStr (folder_name fi)]) = Inr () \<longrightarrow>
               py_print env w (Line 191 [PStr (folder_name fi @ ''_combined.jpg'')]) = Inr () \<longrightarrow>
               combine_image env (base_image fi) ov
                 (os_path_join output_dir (folder_name fi @ ''_combined.jpg'')) quality
                 (w, log @ [EPrint (Line 178 [PNat idx, PNat n, PStr (folder_name fi)]),
                            EPrint (Line 191 [PStr (folder_name fi @ ''_combined.jpg'')])])
                 = (Inr b, (w1, l1)) \<longrightarrow>
               process_folder env output_dir False quality has_ffmpeg n idx c fi (w, log)
                 = io_bind (do_prints env ((if b then [Line 200 []] else []) @ [Line 227 []]))
                     (\<lambda>_. io_return (if b then c\<lparr>processed_images := processed_images c + 1\<rparr>
                                     else c\<lparr>errors := errors c + 1\<rparr>)) (w1, l1)) \<and>
            (\<forall>w log r w' log'.
               process_folder env output_dir dry_run quality has_ffmpeg n idx c fi (w, log)
                 = (r, (w', log')) \<longrightarrow>
               filter is_run log' = filter is_run log))"
proof -
  have p1: "is_image fi \<longleftrightarrow> (\<exists>f\<in>set files. str_contains ''-main.jpg'' (lower f))"
    and p2: "is_video fi \<longleftrightarrow> (\<exists>f\<in>set files. str_contains ''-main.mp4'' (lower f))"
    unfolding fi by (auto simp: main_images_of_def main_videos_of_def filter_empty_conv)
  have k1: "spec_kind fi = Image \<longleftrightarrow> is_image fi"
    and k2: "spec_kind fi = Video \<longleftrightarrow> is_video fi \<and> \<not> is_image fi"
    unfolding fi spec_kind_def using make_folder_info_bases[of item item_path files]
    by auto
  have d: "process_folder env output_dir dry_run quality has_ffmpeg n idx c fi
              = process_folder env output_dir dry_run quality has_ffmpeg n idx c
                  (fi\<lparr>base_video := None, is_video := False\<rparr>)"
    if "is_image fi"
    using that by (simp add: process_folder_def image_branch_def first_overlay_def Let_def)
  have e: "process_folder env output_dir False quality has_ffmpeg n idx c fi (w, log)
                 = io_bind (do_prints env ((if b then [Line 200 []] else []) @ [Line 227 []]))
                     (\<lambda>_. io_return (if b then c\<lparr>processed_images := processed_images c + 1\<rparr>
                                     else c\<lparr>errors := errors c + 1\<rparr>)) (w1, l1)"
    if "is_image fi" "overlays fi = ov # ovs"
      "py_print env w (Line 178 [PNat idx, PNat n, PStr (folder_name fi)]) = Inr ()"
      "py_print env w (Line 191 [PStr (folder_name fi @ ''_combined.jpg'')]) = Inr ()"
      "combine_image env (base_image fi) ov
         (os_path_join output_dir (folder_name fi @ ''_combined.jpg'')) quality
         (w, log @ [EPrint (Line 178 [PNat idx, PNat n, PStr (folder_name fi)]),
                    EPrint (Line 191 [PStr (folder_name fi @ ''_combined.jpg'')])])
         = (Inr b, (w1, l1))"
    for ov ovs w log b w1 l1
    using that
    by (cases b; cases "py_print env w1 (Line 200 [])"; cases "py_print env w1 (Line 227 [])")
       (simp_all add: process_folder_def image_branch_def Let_def io_bind_apply do_print_apply
          io_return_apply first_overlay_apply)
  have r: "filter is_run log' = filter is_run log"
    if "is_image fi"
      "process_folder env output_dir dry_run quality has_ffmpeg n idx c fi (w, log) = (r, (w', log'))"
    for w log r w' log'
    using process_folder_image_no_runs[OF that] .
  from p1 p2 k1 k2 d e r show ?thesis by blast
qed

theorem image_takes_precedence_over_video_witness:
  "demo_memory4 = make_folder_info ''memory4'' ''snapchat_memories/memory4''
                    [''d-main.jpg'', ''d-main.mp4'', ''d-overlay.png''] \<and>
   is_image demo_memory4 \<and> is_video demo_memory4 \<and> spec_kind demo_memory4 = Image \<and>
   process_folder (demo_env demo_tree_both) OUTPUT_FOLDER False 95 True 1 1 zero_counters
       demo_memory4 ([], [])
     = (Inr (zero_counters\<lparr>processed_images := processed_images zero_counters + 1\<rparr>),
        ([''snapchat_memories_combined/memory4_combined.jpg''],
         [EPrint (Line 178 [PNat 1, PNat 1, PStr ''memory4'']),
          EPrint (Line 191 [PStr ''memory4_combined.jpg'']),
          EOpen ''snapchat_memories/memory4/d-main.jpg'',
          EOpen ''snapchat_memories/memory4/d-overlay.png'',
          ESave ((100, 100), ''RGB'', Some [0x45, 0x78, 0x69, 0x66])
            ''snapchat_memories_combined/memory4_combined.jpg'' 95
            (Some [0x45, 0x78, 0x69, 0x66]),
          EPrint (Line 200 []), EPrint (Line 227 [])])) \<and>
   filter is_run
     (snd (snd (process_folder (demo_env demo_tree_both) OUTPUT_FOLDER False 95 True 1 1
                  zero_counters demo_memory4 ([], [])))) = []"
proof -
  let ?D = "demo_env demo_tree_both"
  let ?l1 = "[EPrint (Line 178 [PNat 1, PNat 1, PStr ''memory4'']),
          EPrint (Line 191 [PStr ''memory4_combined.jpg'']),
          EOpen ''snapchat_memories/memory4/d-main.jpg'',
          EOpen ''snapchat_memories/memory4/d-overlay.png'',
          ESave ((100, 100), ''RGB'', Some [0x45, 0x78, 0x69, 0x66])
            ''snapchat_memories_combined/memory4_combined.jpg'' 95
            (Some [0x45, 0x78, 0x69, 0x66])]"
  have fi: "demo_memory4 = make_folder_info ''memory4'' ''snapchat_memories/memory4''
                    [''d-main.jpg'', ''d-main.mp4'', ''d-overlay.png'']"
    by code_simp
  have i: "is_image demo_memory4" and v: "is_video demo_memory4"
    and ov: "overlays demo_memory4 = ''snapchat_memories/memory4/d-overlay.png'' # []"
    by (simp_all add: demo_memory4_def)
  have p1: "py_print ?D [] (Line 178 [PNat 1, PNat 1, PStr (folder_name demo_memory4)]) = Inr ()"
    and p2: "py_print ?D [] (Line 191 [PStr (folder_name demo_memory4 @ ''_combined.jpg'')]) = Inr ()"
    by (simp_all add: demo_env_def)
  have ci: "combine_image ?D (base_image demo_memory4) ''snapchat_memories/memory4/d-overlay.png''
              (os_path_join OUTPUT_FOLDER (folder_name demo_memory4 @ ''_combined.jpg'')) 95
              ([], [] @ [EPrint (Line 178 [PNat 1, PNat 1, PStr (folder_name demo_memory4)]),
                         EPrint (Line 191 [PStr (folder_name demo_memory4 @ ''_combined.jpg'')])])
            = (Inr True, ([''snapchat_memories_combined/memory4_combined.jpg''], ?l1))"
    by code_simp
  have tail: "io_bind (do_prints ?D ((if True then [Line 200 []] else []) @ [Line 227 []]))
                (\<lambda>_. io_return (if True
                   then zero_counters\<lparr>processed_images := processed_images zero_counters + 1\<rparr>
                   else zero_counters\<lparr>errors := errors zero_counters + 1\<rparr>))
                ([''snapchat_memories_combined/memory4_combined.jpg''], ?l1)
     = (Inr (zero_counters\<lparr>processed_images := processed_images zero_counters + 1\<rparr>),
        ([''snapchat_memories_combined/memory4_combined.jpg''],
         ?l1 @ [EPrint (Line 200 []), EPrint (Line 227 [])]))"
    by code_simp
  note inst = image_takes_precedence_over_video[OF fi, where env = ?D and output_dir = OUTPUT_FOLDER
      and quality = 95 and has_ffmpeg = True and c = zero_counters and n = 1 and idx = 1]
  from inst i v have k: "spec_kind demo_memory4 = Image" by blast
  from inst i v have "\<forall>ov ovs w log b w1 l1. overlays demo_memory4 = ov # ovs \<longrightarrow>
               py_print ?D w (Line 178 [PNat 1, PNat 1, PStr (folder_name demo_memory4)]) = Inr () \<longrightarrow>
               py_print ?D w (Line 191 [PStr (folder_name demo_memory4 @ ''_combined.jpg'')]) = Inr () \<longrightarrow>
               combine_image ?D (base_image demo_memory4) ov
                 (os_path_join OUTPUT_FOLDER (folder_name demo_memory4 @ ''_combined.jpg'')) 95
                 (w, log @ [EPrint (Line 178 [PNat 1, PNat 1, PStr (folder_name demo_memory4)]),
                            EPrint (Line 191 [PStr (folder_name demo_memory4 @ ''_combined.jpg'')])])
                 = (Inr b, (w1, l1)) \<longrightarrow>
               process_folder ?D OUTPUT_FOLDER False 95 True 1 1 zero_counters demo_memory4 (w, log)
                 = io_bind (do_prints ?D ((if b then [Line 200 []] else []) @ [Line 227 []]))
                     (\<lambda>_. io_return (if b
                        then zero_counters\<lparr>processed_images := processed_images zero_counters + 1\<rparr>
                        else zero_counters\<lparr>errors := errors zero_counters + 1\<rparr>)) (w1, l1)"
    by blast
  from this[rule_format, OF ov p1 p2 ci] tail
  have run: "process_folder ?D OUTPUT_FOLDER False 95 True 1 1 zero_counters demo_memory4 ([], [])
     = (Inr (zero_counters\<lparr>processed_images := processed_images zero_counters + 1\<rparr>),
        ([''snapchat_memories_combined/memory4_combined.jpg''],
         ?l1 @ [EPrint (Line 200 []), EPrint (Line 227 [])]))"
    by simp
  from inst i v have "\<forall>w log r w' log'.
      process_folder ?D OUTPUT_FOLDER False 95 True 1 1 zero_counters demo_memory4 (w, log)
        = (r, (w', log')) \<longrightarrow>
      filter is_run log' = filter is_run log"
    by blast
  from this[rule_format, OF run] run have nr: "filter is_run
     (snd (snd (process_folder ?D OUTPUT_FOLDER False 95 True 1 1 zero_counters demo_memory4
                  ([], [])))) = []"
    by simp
  from fi i v k run nr show ?thesis by simp
qed

section \<open>Preview and execute\<close>

text \<open>A preview run makes no write and calls no compositor: the world is unchanged and the
  log holds only the reads of discovery and the prints.\<close>

lemma preview_only_reads:
  assumes "process_all_memories env src out True q ff (w, log) = (x, (w', log'))"
  shows "w' = w \<and> (\<exists>evs. log' = log @ evs \<and>
           (\<forall>e\<in>set evs. (\<exists>p. e = EExists p) \<or> (\<exists>p. e = EIsdir p) \<or> (\<exists>p. e = EListdir p) \<or>
                         (\<exists>m. e = EPrint m)))"
proof -
  let ?Q = "\<lambda>e. (\<exists>p. e = EExists p) \<or> (\<exists>p. e = EIsdir p) \<or> (\<exists>p. e = EListdir p) \<or>
                 (\<exists>m. e = EPrint m)"
  have find_l: "logs_only ?Q (find_overlay_folders env src)"
    unfolding find_overlay_folders_def
    by (auto intro!: logs_only_prim logs_only_mono[OF scan_entries_listing])
  have loop_l: "logs_only ?Q (process_folders env out True q ff n idx c items)" for n idx c items
    by (rule logs_only_mono[OF process_folders_dry_logs]) (auto elim: is_print.elims)
  have l: "logs_only ?Q (process_all_memories env src out True q ff)"
    unfolding process_all_memories_def Let_def
    by (auto intro!: logs_only_prim logs_only_prints find_l loop_l)
  have wc: "world_const (process_all_memories env src out True q ff)"
    unfolding process_all_memories_def Let_def
    by (auto intro!: find_overlay_folders_world process_folders_dry_world)
  from world_constD[OF wc assms] logs_onlyD[OF l assms] show ?thesis by simp
qed

lemma discovered_base_video:
  "discovered env w directory fi \<Longrightarrow> is_video fi \<Longrightarrow> base_video fi \<noteq> None"
  unfolding discovered_def using make_folder_info_bases(2) make_folder_info_sel(5) by metis

lemma expected_runs_length:
  assumes "overlays fi \<noteq> []" and "is_video fi \<longrightarrow> base_video fi \<noteq> None"
  shows "length (expected_runs out False True fi) = (if is_video fi \<and> \<not> is_image fi then 1 else 0)"
  using assms by (auto simp: expected_runs_def split: list.splits option.splits)

lemma expected_runs_total:
  assumes "\<forall>fi\<in>set items. overlays fi \<noteq> [] \<and> (is_video fi \<longrightarrow> base_video fi \<noteq> None)"
  shows "length (concat (map (expected_runs out False True) items))
           = length (filter (\<lambda>fi. is_video fi \<and> \<not> is_image fi) items)"
  using assms
proof (induction items)
  case Nil
  show ?case by simp
next
  case (Cons fi rest)
  then have "length (expected_runs out False True fi)
      = (if is_video fi \<and> \<not> is_image fi then 1 else 0)"
    by (intro expected_runs_length) simp_all
  with Cons show ?case by simp
qed

text \<open>
  With the video tool available, an execute run that returns a report has run the tool once
  for each folder that has a base video and no base image, while the preview summary
  announces one video for each folder that has a base video: the two numbers differ by the
  folders that have both bases.
\<close>

lemma execute_video_attempts:
  assumes find: "find_overlay_folders env src (w, log) = (Inr items, s0)"
    and run: "process_all_memories env src out False q True (w, log) = (Inr (Some rep), (w', log'))"
  shows "length (filter is_run log') =
           length (filter is_run log) + length (filter (\<lambda>fi. is_video fi \<and> \<not> is_image fi) items)"
proof -
  obtain w0 l0 where s0: "s0 = (w0, l0)" by (cases s0)
  have inv: "\<forall>fi\<in>set items. overlays fi \<noteq> [] \<and> (is_video fi \<longrightarrow> base_video fi \<noteq> None)"
    using find_overlay_folders_overlays[OF find] find_overlay_folders_result[OF find[unfolded s0]]
    by (auto dest: discovered_base_video)
  from process_all_memories_runs[OF find run]
  have "filter is_run log' = filter is_run log @
          map ERun (concat (map (expected_runs out False True) items))"
    by auto
  with expected_runs_total[OF inv, of out] show ?thesis by simp
qed

lemma preview_video_line:
  assumes find: "find_overlay_folders env src (w, log) = (Inr items, s0)"
    and run: "process_all_memories env src out True q True (w, log) = (Inr (Some rep), (w', log'))"
  shows "map_of (summary rep) ''Videos'' = Some (length (filter is_video items))"
    and "EPrint (Line 239 [PNat (length (filter is_video items))]) \<in> set log'"
proof -
  from process_all_memories_report[OF find run] obtain s1 c s2 where
    ne: "items \<noteq> []" and rep: "rep = report_of True True items c" and
    bl: "before_loop env out True True items s0 = (Inr (), s1)" and
    loop: "process_folders env out True q True (length items) 1 zero_counters items s1
              = (Inr c, s2)"
    by blast
  from rep show "map_of (summary rep) ''Videos'' = Some (length (filter is_video items))"
    by (simp add: summary_lines_videos)
  let ?ms = "summary_messages True True (length (filter is_image items))
               (length (filter is_video items)) c out"
  from find ne run have p: "do_prints env ?ms s2 = (Inr (), (w', log'))"
  proof (cases rule: process_all_memories_stages)
    case (report s1' c' s2')
    with bl loop show ?thesis by simp
  qed simp_all
  obtain w2 l2 where s2: "s2 = (w2, l2)" by (cases s2)
  from do_prints_InrD[OF p[unfolded s2]] have "log' = l2 @ map EPrint ?ms" by simp
  then show "EPrint (Line 239 [PNat (length (filter is_video items))]) \<in> set log'"
    by (simp add: summary_messages_def)
qed

text \<open>
  Claim C1 says that a preview run reports, for each kind, the count an execute run over
  the same folders would attempt, and that it makes no write and calls no compositor. The
  second part is \<open>preview_only_reads\<close>. The first part fails for videos at a folder that
  holds a base image, a base video and an overlay, with the video tool available: the
  preview summary says one image and one video would be created (lines 238 and 239), while
  the execute run calls the image compositor once, never runs the video tool, and reports
  one image and no video (lines 247 and 248).
\<close>

theorem preview_counts_a_video_that_execute_never_attempts:
  "process_all_memories (demo_env demo_tree_both) SOURCE_FOLDER OUTPUT_FOLDER True 95 True ([], [])
     = (Inr (Some \<lparr> found_images = 1, found_videos = 1,
                    final = \<lparr> processed_images = 0, processed_videos = 0,
                              skipped_videos = 0, errors = 0 \<rparr>,
                    summary = [(''Images'', 1), (''Videos'', 1)] \<rparr>),
        ([], [EExists ''snapchat_memories'', EPrint (Line 39 []),
              EListdir ''snapchat_memories'', EIsdir ''snapchat_memories/memory4'',
              EListdir ''snapchat_memories/memory4'', EPrint (Line 154 [PNat 1]),
              EPrint (Line 155 [PNat 1]), EPrint (Line 156 [PNat 1]),
              EPrint (Line 163 []), EPrint (Line 164 []),
              EPrint (Line 178 [PNat 1, PNat 1, PStr ''memory4'']),
              EPrint (Line 189 [PStr ''memory4_combined.jpg'']), EPrint (Line 227 []),
              EPrint (Line 230 []), EPrint (Line 231 []), EPrint (Line 232 []),
              EPrint (Line 235 []), EPrint (Line 236 []), EPrint (Line 237 []),
              EPrint (Line 238 [PNat 1]), EPrint (Line 239 [PNat 1]),
              EPrint (Line 242 []), EPrint (Line 243 []), EPrint (Line 244 [])])) \<and>
   process_all_memories (demo_env demo_tree_both) SOURCE_FOLDER OUTPUT_FOLDER False 95 True ([], [])
     = (Inr (Some \<lparr> found_images = 1, found_videos = 1,
                    final = \<lparr> processed_images = 1, processed_videos = 0,
                              skipped_videos = 0, errors = 0 \<rparr>,
                    summary = [(''Images'', 1), (''Videos'', 0)] \<rparr>),
        ([''snapchat_memories_combined'', ''snapchat_memories_combined/memory4_combined.jpg''],
         [EExists ''snapchat_memories'', EPrint (Line 39 []),
          EListdir ''snapchat_memories'', EIsdir ''snapchat_memories/memory4'',
          EListdir ''snapchat_memories/memory4'', EPrint (Line 154 [PNat 1]),
          EPrint (Line 155 [PNat 1]), EPrint (Line 156 [PNat 1]),
          EPrint (Line 163 []), EPrint (Line 164 []),
          EMakedirs ''snapchat_memories_combined'',
          EPrint (Line 178 [PNat 1, PNat 1, PStr ''memory4'']),
          EPrint (Line 191 [PStr ''memory4_combined.jpg'']),
          EOpen ''snapchat_memories/memory4/d-main.jpg'',
          EOpen ''snapchat_memories/memory4/d-overlay.png'',
          ESave ((100, 100), ''RGB'', Some [0x45, 0x78, 0x69, 0x66])
            ''snapchat_memories_combined/memory4_combined.jpg'' 95
            (Some [0x45, 0x78, 0x69, 0x66]),
          EPrint (Line 200 []), EPrint (Line 227 []), EPrint (Line 230 []),
          EPrint (Line 231 []), EPrint (Line 232 []), EPrint (Line 246 []),
          EPrint (Line 247 [PNat 1]), EPrint (Line 248 [PNat 0]),
          EPrint (Line 253 []),
          EPrint (Line 254 [PStr ''snapchat_memories_combined''])]))"
  by code_simp

end
